theory Spec2Isabelle
  imports Main "HOL-Library.Word" "HOL-Library.AList"
begin

unbundle bit_operations_syntax

section \<open>Errors and the primitive codec\<close>

text \<open>
  Python exceptions are values.  \<open>StructError off\<close> is the \<^verbatim>\<open>struct.error\<close> of a
  fixed-width read that does not fit into the buffer at offset \<open>off\<close>; the other
  constructors are the interpreter's own errors.
\<close>

datatype error =
    StructError int
  | TypeError
  | IndexError
  | NameError string
  | AttributeError string

type_synonym byte = "8 word"

definition bindE :: "error + 'a \<Rightarrow> ('a \<Rightarrow> error + 'b) \<Rightarrow> error + 'b" where
  "bindE m f = (case m of Inl e \<Rightarrow> Inl e | Inr x \<Rightarrow> f x)"

text \<open>The value of a little-endian byte string.\<close>

fun le_val :: "byte list \<Rightarrow> int" where
  "le_val [] = 0"
| "le_val (b # bs) = uint b + 256 * le_val bs"

text \<open>
  Modelled from the spec: the functions \<^verbatim>\<open>getUInt8\<close>, \<^verbatim>\<open>getUInt16\<close>,
  \<^verbatim>\<open>getUInt32\<close> and \<^verbatim>\<open>getFloat64\<close> of \<^verbatim>\<open>importerUtils\<close> are not part of
  the sources at hand.  The primitive codec takes \<open>(buffer, offset)\<close> and returns
  \<open>(value, newOffset)\<close>; a read advances the offset by exactly the width of
  the type, integers are little-endian, and a read that does not lie inside the
  buffer is the fatal decode error.  A 64-bit float is kept as its bit pattern.
\<close>

definition unpack_at :: "nat \<Rightarrow> byte list \<Rightarrow> int \<Rightarrow> error + (int \<times> int)" where
  "unpack_at w dat off =
     (if off < 0 \<or> int (length dat) < off + int w then Inl (StructError off)
      else Inr (le_val (take w (drop (nat off) dat)), off + int w))"

definition getUInt8 :: "byte list \<Rightarrow> int \<Rightarrow> error + (int \<times> int)" where
  "getUInt8 = unpack_at 1"

definition getUInt16 :: "byte list \<Rightarrow> int \<Rightarrow> error + (int \<times> int)" where
  "getUInt16 = unpack_at 2"

definition getUInt32 :: "byte list \<Rightarrow> int \<Rightarrow> error + (int \<times> int)" where
  "getUInt32 = unpack_at 4"

definition getFloat64 :: "byte list \<Rightarrow> int \<Rightarrow> error + (int \<times> int)" where
  "getFloat64 = unpack_at 8"

text \<open>
  Modelled from the spec: \<^verbatim>\<open>getUInt32A\<close> of \<^verbatim>\<open>importerUtils\<close> is not part of the
  sources at hand.  It reads an array of fixed length: \<open>size\<close> unsigned 32-bit
  integers one behind the other, and returns them with the offset behind the
  last.
\<close>

fun getUInt32s :: "nat \<Rightarrow> byte list \<Rightarrow> int \<Rightarrow> error + (int list \<times> int)" where
  "getUInt32s 0 dat off = Inr ([], off)"
| "getUInt32s (Suc n) dat off =
     bindE (getUInt32 dat off) (\<lambda>(v, i).
     bindE (getUInt32s n dat i) (\<lambda>(vs, i). Inr (v # vs, i)))"

definition getUInt32A :: "byte list \<Rightarrow> int \<Rightarrow> int \<Rightarrow> error + (int list \<times> int)" where
  "getUInt32A dat off sz = getUInt32s (nat sz) dat off"

text \<open>Python's slice \<^verbatim>\<open>xs[a:b]\<close>: negative bounds count from the end, all bounds are clamped.\<close>

definition py_bound :: "nat \<Rightarrow> int \<Rightarrow> nat" where
  "py_bound n a = (if a < 0 then nat (max (a + int n) 0) else min (nat a) n)"

definition py_slice :: "'a list \<Rightarrow> int \<Rightarrow> int \<Rightarrow> 'a list" where
  "py_slice xs a b =
     (let lo = py_bound (length xs) a; hi = py_bound (length xs) b
      in take (hi - lo) (drop lo xs))"

text \<open>Python's \<^verbatim>\<open>'%0wX' % v\<close>: upper-case hexadecimal, zero-padded to width \<open>w\<close>, the sign counted.\<close>

definition hexDigit :: "nat \<Rightarrow> char" where
  "hexDigit d = ''0123456789ABCDEF'' ! d"

function hexStr :: "nat \<Rightarrow> string" where
  "hexStr n = (if n < 16 then [hexDigit n] else hexStr (n div 16) @ [hexDigit (n mod 16)])"
  by pat_completeness auto
termination
  by (relation "measure id") auto

definition fmtX :: "nat \<Rightarrow> int \<Rightarrow> string" where
  "fmtX w v =
     (let sgn = (if v < 0 then ''-'' else ''''); ds = hexStr (nat \<bar>v\<bar>)
      in sgn @ replicate (w - length sgn - length ds) CHR ''0'' @ ds)"

section \<open>Nodes\<close>

text \<open>
  The type of a node is either a UUID (of which the decoder looks at \<open>time_low\<close>)
  or a plain number.
\<close>

datatype typeID =
    UUID (time_low: int) (time_mid: int) (time_hi_version: int) (clock_seq: int) (node_id: int)
  | Tag int

text \<open>
  A reference as \<^verbatim>\<open>NodeRef(n, m, type)\<close> builds it.  The class itself is not part of
  the sources at hand: how \<open>index\<close> is computed from the two 16-bit words is a
  parameter of the functions that build references.
\<close>

record nodeRef =
  index :: int
  refType :: int
  number :: int

definition TYPE_PARENT :: int where "TYPE_PARENT = 1"
definition TYPE_CHILD :: int where "TYPE_CHILD = 2"
definition TYPE_CROSS :: int where "TYPE_CROSS = 3"

text \<open>
  Values of the attribute map of a node; \<open>VNone\<close> is Python's \<^verbatim>\<open>None\<close>, and a float
  is kept as the bit pattern read from the buffer.
\<close>

datatype val =
    VNone
  | VInt int
  | VFloat int
  | VBool bool
  | VStr string
  | VRef nodeRef
  | VList "val list"

record node =
  offset :: int
  size :: int
  typeID :: typeID
  typeName :: string
  data :: "byte list"
  content :: string
  name :: string
  visible :: bool
  dimensioningVisible :: bool
  childIndexes :: "nodeRef list"
  attrs :: "(string \<times> val) list"

text \<open>
  Modelled from the spec: \<^verbatim>\<open>AbstractNode.set\<close> and \<^verbatim>\<open>AbstractNode.get\<close> are not
  part of the sources at hand.  The attributes of a node are an ordered mapping
  from field name to value; a name that was never set has no value.
\<close>

definition set_attr :: "node \<Rightarrow> string \<Rightarrow> val \<Rightarrow> node" where
  "set_attr nd k v = nd\<lparr>attrs := AList.update k v (attrs nd)\<rparr>"

definition get_attr :: "node \<Rightarrow> string \<Rightarrow> val option" where
  "get_attr nd k = map_of (attrs nd) k"

section \<open>\<^verbatim>\<open>DCReader.setNodeData\<close>\<close>

text \<open>
  The forward scan of \<^verbatim>\<open>setNodeData\<close>:
  \<^verbatim>\<open>while ((s != node.size) and (i < len(data))): i += 1; s, dummy = getUInt32(data, i)\<close>.
\<close>

function scanMarker :: "byte list \<Rightarrow> int \<Rightarrow> int \<Rightarrow> int \<Rightarrow> error + int" where
  "scanMarker dat sz i s =
     (if s \<noteq> sz \<and> i < int (length dat) then
        (case getUInt32 dat (i + 1) of
           Inl e \<Rightarrow> Inl e
         | Inr r \<Rightarrow> scanMarker dat sz (i + 1) (fst r))
      else Inr i)"
  by pat_completeness auto
termination
  by (relation "measure (\<lambda>(dat, sz, i, s). nat (int (length dat) - i))") auto

text \<open>
  \<^verbatim>\<open>getNodeType\<close> (of \<^verbatim>\<open>importerSegment\<close>) maps the type byte in front of the node
  to the type of the node; it is the parameter \<open>gnt\<close>.
\<close>

definition setNodeData :: "(int \<Rightarrow> 'seg \<Rightarrow> typeID) \<Rightarrow> node \<Rightarrow> byte list \<Rightarrow> 'seg \<Rightarrow> error + node" where
  "setNodeData gnt nd dat seg =
     bindE (getUInt8 dat (offset nd - 4)) (\<lambda>(nodeTypeID, i0).
       let nd1 = nd\<lparr>typeID := gnt nodeTypeID seg\<rparr> in
       bindE
         (case typeID nd1 of
            UUID tlow tmid thi cseq nid \<Rightarrow>
              let nd2 = nd1\<lparr>typeName := fmtX 8 tlow\<rparr>;
                  i = offset nd + size nd2
              in bindE (getUInt32 dat i) (\<lambda>(s, dummy).
                   if s \<noteq> size nd2 \<and> (tlow = 0x2B48A42B \<or> tlow = 0x90874D63) then
                     bindE (getUInt32 dat i) (\<lambda>(s, dummy).
                       bindE (scanMarker dat (size nd2) i s) (\<lambda>i'.
                         Inr (nd2\<lparr>size := i' - offset nd\<rparr>)))
                   else Inr nd2)
          | Tag t \<Rightarrow> Inr (nd1\<lparr>typeName := fmtX 8 t\<rparr>))
         (\<lambda>nd3. Inr (nd3\<lparr>data := py_slice dat (offset nd) (offset nd + size nd3)\<rparr>)))"

text \<open>
  The position \<open>p\<close> is the first one, from the declared end of the node on, at which
  the 32-bit size marker equals the declared size.
\<close>

definition realigned :: "byte list \<Rightarrow> node \<Rightarrow> int \<Rightarrow> bool" where
  "realigned dat nd p \<longleftrightarrow>
     offset nd + size nd \<le> p \<and> getUInt32 dat p = Inr (size nd, p + 4) \<and>
     (\<forall>q \<in> {offset nd + size nd ..< p}. getUInt32 dat q \<noteq> Inr (size nd, q + 4))"

section \<open>References and reference lists\<close>

text \<open>
  The class \<^verbatim>\<open>NodeRef\<close> (of \<^verbatim>\<open>importerSegNode\<close>) is not part of the sources at
  hand.  What the functions below need of it is a parameter: how the constructor
  computes \<open>index\<close> from the two 16-bit words, and how a reference is printed.
  The number the constructor gives a new reference is never looked at:
  \<^verbatim>\<open>ReadNodeRef\<close> overwrites it or drops the reference.
\<close>

record nodeRefClass =
  ref_index :: "int \<Rightarrow> int \<Rightarrow> int"
  ref_str :: "nodeRef \<Rightarrow> string"

definition NodeRef :: "nodeRefClass \<Rightarrow> int \<Rightarrow> int \<Rightarrow> int \<Rightarrow> nodeRef" where
  "NodeRef c n m t = \<lparr>index = ref_index c n m, refType = t, number = 0\<rparr>"

definition strRef :: "nodeRefClass \<Rightarrow> nodeRef option \<Rightarrow> string" where
  "strRef c r = (case r of None \<Rightarrow> ''None'' | Some x \<Rightarrow> ref_str c x)"

definition refVal :: "nodeRef option \<Rightarrow> val" where
  "refVal r = (case r of None \<Rightarrow> VNone | Some x \<Rightarrow> VRef x)"

text \<open>\<^verbatim>\<open>DCReader.ReadNodeRef\<close>; the node is returned with the reference and the new offset.\<close>

definition ReadNodeRef ::
  "nodeRefClass \<Rightarrow> node \<Rightarrow> int \<Rightarrow> int \<Rightarrow> int \<Rightarrow> error + (node \<times> nodeRef option \<times> int)" where
  "ReadNodeRef c nd off num t =
     bindE (getUInt16 (data nd) off) (\<lambda>(n, i).
     bindE (getUInt16 (data nd) i) (\<lambda>(m, i).
       let ref = NodeRef c n m t in
       if index ref > 0 then
         let ref = ref\<lparr>number := num\<rparr>
         in Inr (nd\<lparr>childIndexes := childIndexes nd @ [ref]\<rparr>, Some ref, i)
       else Inr (nd, None, i)))"

text \<open>
  The functions \<^verbatim>\<open>IntArr2Str\<close> of \<^verbatim>\<open>importerUtils\<close> and Python's \<^verbatim>\<open>'%g' % x\<close>
  only print into \<open>content\<close>; they are parameters.
\<close>

record printers =
  IntArr2Str :: "int list \<Rightarrow> int \<Rightarrow> string"
  fmtG :: "int \<Rightarrow> string"

text \<open>
  The functions \<^verbatim>\<open>ReadRefList\<close>, \<^verbatim>\<open>ReadRefRefList\<close>, \<^verbatim>\<open>ReadRefXRefList\<close>,
  \<^verbatim>\<open>ReadRefU32List\<close>, \<^verbatim>\<open>ReadRefU32AList\<close>, \<^verbatim>\<open>ReadRefU32ARefU32List\<close>,
  \<^verbatim>\<open>ReadRefU32U8List\<close> and \<^verbatim>\<open>ReadRefU32D64List\<close> are one and the same loop
  around different bodies: read the count, open the bracket in \<open>content\<close>,
  then while \<open>j < cnt\<close> read one element, append its text and its value, and
  at the end close the bracket and store the list under the name.
  \<open>readListLoop\<close> is the while loop and \<open>readList\<close> the frame; a body returns
  the node, the value appended to the list, the text appended to \<open>content\<close>
  behind the separator, and the new offset.
\<close>

function readListLoop ::
  "(node \<Rightarrow> int \<Rightarrow> int \<Rightarrow> error + (node \<times> val \<times> string \<times> int)) \<Rightarrow>
   node \<Rightarrow> int \<Rightarrow> int \<Rightarrow> int \<Rightarrow> string \<Rightarrow> val list \<Rightarrow> error + (node \<times> int \<times> val list)" where
  "readListLoop body nd cnt i j sep lst =
     (if j < cnt then
        (case body nd i j of
           Inl e \<Rightarrow> Inl e
         | Inr r \<Rightarrow>
             (case r of (nd', v, txt, i') \<Rightarrow>
                readListLoop body (nd'\<lparr>content := content nd' @ sep @ txt\<rparr>)
                  cnt i' (j + 1) '','' (lst @ [v])))
      else Inr (nd, i, lst))"
  by pat_completeness auto
termination
  by (relation "measure (\<lambda>(body, nd, cnt, i, j, sep, lst). nat (cnt - j))") auto

definition readList ::
  "(node \<Rightarrow> int \<Rightarrow> int \<Rightarrow> error + (node \<times> val \<times> string \<times> int)) \<Rightarrow>
   node \<Rightarrow> int \<Rightarrow> string \<Rightarrow> error + (node \<times> int)" where
  "readList body nd off nm =
     bindE (getUInt32 (data nd) off) (\<lambda>(cnt, i).
     bindE (readListLoop body (nd\<lparr>content := content nd @ '' '' @ nm @ ''=[''\<rparr>) cnt i 0 [] [])
       (\<lambda>(nd', i', lst).
          Inr (set_attr (nd'\<lparr>content := content nd' @ '']''\<rparr>) nm (VList lst), i')))"

definition ReadRefList :: "nodeRefClass \<Rightarrow> node \<Rightarrow> int \<Rightarrow> string \<Rightarrow> error + (node \<times> int)" where
  "ReadRefList c =
     readList (\<lambda>nd i j.
       bindE (ReadNodeRef c nd i j TYPE_CROSS) (\<lambda>(nd, ref, i).
         Inr (nd, refVal ref, ''('' @ strRef c ref @ '')'', i)))"

definition ReadRefRefList :: "nodeRefClass \<Rightarrow> node \<Rightarrow> int \<Rightarrow> string \<Rightarrow> error + (node \<times> int)" where
  "ReadRefRefList c =
     readList (\<lambda>nd i j.
       bindE (ReadNodeRef c nd i j TYPE_CHILD) (\<lambda>(nd, ref1, i).
       bindE (ReadNodeRef c nd i j TYPE_CHILD) (\<lambda>(nd, ref2, i).
         Inr (nd, VList [refVal ref1, refVal ref2],
              ''('' @ strRef c ref1 @ '','' @ strRef c ref2 @ '')'', i))))"

definition ReadRefXRefList :: "nodeRefClass \<Rightarrow> node \<Rightarrow> int \<Rightarrow> string \<Rightarrow> error + (node \<times> int)" where
  "ReadRefXRefList c =
     readList (\<lambda>nd i j.
       bindE (ReadNodeRef c nd i j TYPE_CHILD) (\<lambda>(nd, ref1, i).
       bindE (ReadNodeRef c nd i j TYPE_CROSS) (\<lambda>(nd, ref2, i).
         Inr (nd, VList [refVal ref1, refVal ref2],
              ''('' @ strRef c ref1 @ '','' @ strRef c ref2 @ '')'', i))))"

definition ReadRefU32List :: "nodeRefClass \<Rightarrow> node \<Rightarrow> int \<Rightarrow> string \<Rightarrow> error + (node \<times> int)" where
  "ReadRefU32List c =
     readList (\<lambda>nd i j.
       bindE (ReadNodeRef c nd i j TYPE_CROSS) (\<lambda>(nd, ref, i).
       bindE (getUInt32 (data nd) i) (\<lambda>(u32, i).
         Inr (nd, VList [refVal ref, VInt u32],
              ''('' @ strRef c ref @ '','' @ fmtX 4 u32 @ '')'', i))))"

definition ReadRefU32AList ::
  "nodeRefClass \<Rightarrow> printers \<Rightarrow> node \<Rightarrow> int \<Rightarrow> string \<Rightarrow> int \<Rightarrow> int \<Rightarrow> error + (node \<times> int)" where
  "ReadRefU32AList c p nd off nm sz t =
     readList (\<lambda>nd i j.
       bindE (ReadNodeRef c nd i j t) (\<lambda>(nd, ref, i).
       bindE (getUInt32A (data nd) i sz) (\<lambda>(a, i).
         Inr (nd, VList [refVal ref, VList (map VInt a)],
              ''('' @ strRef c ref @ '','' @ IntArr2Str p a 4 @ '')'', i)))) nd off nm"

definition ReadRefU32ARefU32List ::
  "nodeRefClass \<Rightarrow> printers \<Rightarrow> node \<Rightarrow> int \<Rightarrow> string \<Rightarrow> int \<Rightarrow> error + (node \<times> int)" where
  "ReadRefU32ARefU32List c p nd off nm sz =
     readList (\<lambda>nd i j.
       bindE (ReadNodeRef c nd i j TYPE_CROSS) (\<lambda>(nd, ref1, i).
       bindE (getUInt32 (data nd) i) (\<lambda>(u32, i).
       bindE (ReadNodeRef c nd i j TYPE_CROSS) (\<lambda>(nd, ref2, i).
       bindE (getUInt32A (data nd) i sz) (\<lambda>(a, i).
         Inr (nd, VList [refVal ref1, VList (map VInt a), refVal ref2, VInt u32],
              ''('' @ strRef c ref1 @ '','' @ fmtX 4 u32 @ '','' @ strRef c ref2 @ '','' @
                IntArr2Str p a 4 @ '')'', i)))))) nd off nm"

definition ReadRefU32U8List :: "nodeRefClass \<Rightarrow> node \<Rightarrow> int \<Rightarrow> string \<Rightarrow> error + (node \<times> int)" where
  "ReadRefU32U8List c =
     readList (\<lambda>nd i j.
       bindE (ReadNodeRef c nd i j TYPE_CROSS) (\<lambda>(nd, ref, i).
       bindE (getUInt32 (data nd) i) (\<lambda>(v, i).
       bindE (getUInt8 (data nd) i) (\<lambda>(u8, i).
         Inr (nd, VList [refVal ref, VInt v, VInt u8],
              ''('' @ strRef c ref @ '','' @ fmtX 4 v @ '','' @ fmtX 2 u8 @ '')'', i)))))"

definition ReadRefU32D64List ::
  "nodeRefClass \<Rightarrow> printers \<Rightarrow> node \<Rightarrow> int \<Rightarrow> string \<Rightarrow> error + (node \<times> int)" where
  "ReadRefU32D64List c p =
     readList (\<lambda>nd i j.
       bindE (ReadNodeRef c nd i j TYPE_CROSS) (\<lambda>(nd, ref, i).
       bindE (getUInt32 (data nd) i) (\<lambda>(v, i).
       bindE (getFloat64 (data nd) i) (\<lambda>(f64, i).
         Inr (nd, VList [refVal ref, VInt v, VFloat f64],
              ''('' @ strRef c ref @ '','' @ fmtX 4 v @ '','' @ fmtG p f64 @ '')'', i)))))"

text \<open>The value at position \<open>pos\<close> of a buffer, read as specified for the list elements.\<close>

definition u16At :: "byte list \<Rightarrow> int \<Rightarrow> int" where
  "u16At dat pos = le_val (take 2 (drop (nat pos) dat))"

definition u32At :: "byte list \<Rightarrow> int \<Rightarrow> int" where
  "u32At dat pos = le_val (take 4 (drop (nat pos) dat))"

definition u8At :: "byte list \<Rightarrow> int \<Rightarrow> int" where
  "u8At dat pos = le_val (take 1 (drop (nat pos) dat))"

definition f64At :: "byte list \<Rightarrow> int \<Rightarrow> int" where
  "f64At dat pos = le_val (take 8 (drop (nat pos) dat))"

definition u32sAt :: "byte list \<Rightarrow> int \<Rightarrow> int \<Rightarrow> int list" where
  "u32sAt dat pos n = map (\<lambda>k. u32At dat (pos + 4 * int k)) [0..<nat n]"

definition refAt :: "nodeRefClass \<Rightarrow> byte list \<Rightarrow> int \<Rightarrow> int \<Rightarrow> int \<Rightarrow> nodeRef option" where
  "refAt c dat pos num t =
     (let ix = ref_index c (u16At dat pos) (u16At dat (pos + 2))
      in if ix > 0 then Some \<lparr>index = ix, refType = t, number = num\<rparr> else None)"

text \<open>
  The result \<open>r\<close> of a list read is a normal return at offset \<open>i\<close> with the list
  \<open>xs\<close> stored under the name \<open>nm\<close>.
\<close>

definition storesList :: "error + (node \<times> int) \<Rightarrow> string \<Rightarrow> val list \<Rightarrow> int \<Rightarrow> bool" where
  "storesList r nm xs i \<longleftrightarrow> (\<exists>nd'. r = Inr (nd', i) \<and> get_attr nd' nm = Some (VList xs))"

section \<open>The methods of the node that the decoders call\<close>

text \<open>
  The decoders of \<^verbatim>\<open>DCReader\<close> call methods of the node (\<^verbatim>\<open>AbstractNode\<close>, of
  \<^verbatim>\<open>importerSegNode\<close>), \<^verbatim>\<open>skipBlockSize\<close> of the segment reader and
  \<^verbatim>\<open>getFileVersion\<close> of \<^verbatim>\<open>importerUtils\<close>.  None of them is part of the sources
  at hand, and the spec does not give their byte layouts: they are the
  parameters \<open>env\<close> of every decoder.  A method of the node takes the node and
  returns it with the new offset, or raises.  An argument left out in a call
  (the name of \<^verbatim>\<open>ReadList6\<close> or of \<^verbatim>\<open>ReadLen32Text16\<close>) is \<open>None\<close>.
\<close>

datatype listType =
    TYP_NODE_REF
  | TYP_NODE_X_REF
  | TYP_1D_UINT32
  | TYP_MAP_X_REF_KEY
  | TYP_MAP_X_REF_FLOAT64
  | TYP_MAP_MDL_TXN_MGR

type_synonym reader = "node \<Rightarrow> int \<Rightarrow> string \<Rightarrow> error + (node \<times> int)"

record env =
  fileVersion :: int
  skipBlockSize :: "int \<Rightarrow> int"
  py_repr :: "string \<Rightarrow> string"
  Read_Header0 :: "node \<Rightarrow> error + (node \<times> int)"
  ReadParentRef :: "node \<Rightarrow> int \<Rightarrow> error + (node \<times> int)"
  ReadChildRef :: reader
  ReadCrossRef :: reader
  ReadUInt8 :: reader
  ReadUInt16 :: reader
  ReadUInt32 :: reader
  ReadSInt16 :: reader
  ReadSInt32 :: reader
  ReadUUID :: reader
  ReadBoolean :: reader
  ReadEnum16 :: "node \<Rightarrow> int \<Rightarrow> string \<Rightarrow> string \<Rightarrow> error + (node \<times> int)"
  ReadUInt16A :: "node \<Rightarrow> int \<Rightarrow> int \<Rightarrow> string \<Rightarrow> error + (node \<times> int)"
  ReadUInt32A :: "node \<Rightarrow> int \<Rightarrow> int \<Rightarrow> string \<Rightarrow> error + (node \<times> int)"
  ReadLen32Text16 :: "node \<Rightarrow> int \<Rightarrow> string option \<Rightarrow> error + (node \<times> int)"
  ReadList2 :: "node \<Rightarrow> int \<Rightarrow> listType \<Rightarrow> string \<Rightarrow> error + (node \<times> int)"
  ReadList6 :: "node \<Rightarrow> int \<Rightarrow> listType \<Rightarrow> string option \<Rightarrow> error + (node \<times> int)"
  ReadList8 :: "node \<Rightarrow> int \<Rightarrow> listType \<Rightarrow> string \<Rightarrow> error + (node \<times> int)"

text \<open>
  Modelled from the spec: \<^verbatim>\<open>AbstractNode.ReadFloat64\<close> is not part of the sources
  at hand.  It reads one 64-bit float with the primitive codec at the offset,
  stores it under the name and returns the new offset; the text it adds to
  \<open>content\<close> is left out.
\<close>

definition ReadFloat64 :: reader where
  "ReadFloat64 nd off nm =
     bindE (getFloat64 (data nd) off) (\<lambda>(x, i). Inr (set_attr nd nm (VFloat x), i))"

text \<open>
  An attribute used as an integer, as in \<^verbatim>\<open>flags & 0x00000400\<close>: a Python \<^verbatim>\<open>bool\<close> is
  an integer, every other value raises.
\<close>

definition get_int :: "node \<Rightarrow> string \<Rightarrow> error + int" where
  "get_int nd k =
     (case get_attr nd k of
        Some (VInt x) \<Rightarrow> Inr x
      | Some (VBool b) \<Rightarrow> Inr (if b then 1 else 0)
      | _ \<Rightarrow> Inl TypeError)"

section \<open>The shared headers\<close>

definition ReadContentHeader :: "env \<Rightarrow> node \<Rightarrow> error + (node \<times> int)" where
  "ReadContentHeader e nd =
     bindE (Read_Header0 e nd) (\<lambda>(nd, i).
     bindE (ReadChildRef e nd i ''label'') (\<lambda>(nd, i).
     bindE (ReadUInt32 e nd i ''flags'') (\<lambda>(nd, i).
     let i = skipBlockSize e i in
     bindE (ReadParentRef e nd i) (\<lambda>(nd, i).
     bindE (ReadUInt32 e nd i ''index'') (\<lambda>(nd, i).
     bindE (get_int nd ''flags'') (\<lambda>flags.
       let nd = nd\<lparr>visible := (flags AND 0x00000400) > 0\<rparr>;
           nd = nd\<lparr>dimensioningVisible := (flags AND 0x00800000) > 0\<rparr>;
           nd = set_attr nd ''ContentHeader'' (VBool True)
       in Inr (nd, i)))))))"

definition ReadSketch2DEntityHeader :: "env \<Rightarrow> node \<Rightarrow> string \<Rightarrow> error + (node \<times> int)" where
  "ReadSketch2DEntityHeader e nd tn =
     (let nd = nd\<lparr>typeName := tn\<rparr> in
      bindE (ReadContentHeader e nd) (\<lambda>(nd, i).
      let i = skipBlockSize e i;
          i = skipBlockSize e i;
          i = skipBlockSize e i in
      bindE (ReadSInt32 e nd i ''s32_0'') (\<lambda>(nd, i).
      let i = skipBlockSize e i in
      ReadCrossRef e nd i ''refSketch'')))"

definition ReadSketch3DEntityHeader :: "env \<Rightarrow> node \<Rightarrow> string \<Rightarrow> error + (node \<times> int)" where
  "ReadSketch3DEntityHeader e nd tn =
     (let nd = nd\<lparr>typeName := tn\<rparr> in
      bindE (ReadContentHeader e nd) (\<lambda>(nd, i).
      let i = skipBlockSize e i;
          i = skipBlockSize e i;
          i = skipBlockSize e i in
      bindE (ReadSInt32 e nd i ''s32_0'') (\<lambda>(nd, i).
      let i = skipBlockSize e i in
      bindE (ReadUInt32 e nd i ''u32_0'') (\<lambda>(nd, i).
      bindE (ReadCrossRef e nd i ''refSketch'') (\<lambda>(nd, i).
        if fileVersion e > 2017 then Inr (nd, i + 4)
        else Inr (nd, skipBlockSize e i))))))"

definition ReadConstraintHeader2D :: "env \<Rightarrow> node \<Rightarrow> string \<Rightarrow> error + (node \<times> int)" where
  "ReadConstraintHeader2D e nd tn =
     (let nd = nd\<lparr>typeName := tn\<rparr> in
      bindE (ReadContentHeader e nd) (\<lambda>(nd, i).
      let i = skipBlockSize e i in
      bindE (ReadSInt32 e nd i ''s32_0'') (\<lambda>(nd, i).
      let i = skipBlockSize e i in
      bindE (ReadCrossRef e nd i ''refGroup'') (\<lambda>(nd, i).
      bindE
        (if fileVersion e > 2012 then
           bindE (ReadList6 e nd i TYP_MAP_X_REF_FLOAT64 (Some ''lst0'')) (\<lambda>(nd, i).
             ReadList6 e nd i TYP_MAP_X_REF_KEY (Some ''lst1''))
         else
           let nd = nd\<lparr>content := content nd @ '' lst0={} lst1={}''\<rparr>;
               i = skipBlockSize e i;
               i = skipBlockSize e i
           in Inr (nd, i))
        (\<lambda>(nd, i). ReadCrossRef e nd i ''refParameter'')))))"

section \<open>Record decoders\<close>

text \<open>\<^verbatim>\<open>Read_CE52DF3A\<close>, the decoder of a sketch line.\<close>

definition Read_CE52DF3A :: "env \<Rightarrow> node \<Rightarrow> error + (node \<times> int)" where
  "Read_CE52DF3A e nd =
     bindE (ReadSketch2DEntityHeader e nd ''Line2D'') (\<lambda>(nd, i).
     let i = skipBlockSize e i in
     bindE (ReadList2 e nd i TYP_NODE_X_REF ''points'') (\<lambda>(nd, i).
     let i = skipBlockSize e i in
     bindE (if fileVersion e > 2012 then ReadList2 e nd i TYP_NODE_X_REF ''lst1''
            else Inr (nd\<lparr>content := content nd @ '' lst1={}''\<rparr>, i)) (\<lambda>(nd, i).
     bindE (ReadFloat64 nd i ''x'') (\<lambda>(nd, i).
     bindE (ReadFloat64 nd i ''y'') (\<lambda>(nd, i).
     bindE (ReadFloat64 nd i ''dirX'') (\<lambda>(nd, i).
     ReadFloat64 nd i ''dirY''))))))"

text \<open>\<^verbatim>\<open>Read_0AA8AF46\<close>, the decoder of a parameter constant.\<close>

definition Read_0AA8AF46 :: "env \<Rightarrow> node \<Rightarrow> error + (node \<times> int)" where
  "Read_0AA8AF46 e nd =
     (let nd = nd\<lparr>typeName := ''ParameterConstant''\<rparr> in
      bindE (Read_Header0 e nd) (\<lambda>(nd, i).
      bindE (ReadChildRef e nd i ''refUnit'') (\<lambda>(nd, i).
      bindE (ReadFloat64 nd i ''value'') (\<lambda>(nd, i).
      bindE (ReadSInt16 e nd i ''s16_0'') (\<lambda>(nd, i).
      bindE (ReadUInt32 e nd i ''u32_0'') (\<lambda>(nd, i).
      bindE (ReadLen32Text16 e nd i None) (\<lambda>(nd, i).
        if name nd = ''PI'' then Inr (nd\<lparr>name := ''pi''\<rparr>, i)
        else if name nd = ''E'' then Inr (nd\<lparr>name := ''e''\<rparr>, i)
        else Inr (nd, i))))))))"

text \<open>
  Modelled from the spec: \<^verbatim>\<open>translate\<close> of \<^verbatim>\<open>importerUtils\<close> is not part of the
  sources at hand.  The rename step applies a small, fixed table of parameter
  names, of which the spec names the entries for \<open>PI\<close> and \<open>E\<close>; a name
  outside the table is kept.
\<close>

definition translationTable :: "(string \<times> string) list" where
  "translationTable = [(''PI'', ''pi''), (''E'', ''e'')]"

definition translate :: "string \<Rightarrow> string" where
  "translate nm = (case map_of translationTable nm of None \<Rightarrow> nm | Some t \<Rightarrow> t)"

text \<open>
  \<^verbatim>\<open>Read_90874D26\<close>, the decoder of a parameter.  The result comes with the
  warnings the decoder has logged, which stay logged when a later read raises.
\<close>

definition Read_90874D26 :: "env \<Rightarrow> node \<Rightarrow> string list \<times> (error + (node \<times> int))" where
  "Read_90874D26 e nd =
     (let nd = nd\<lparr>typeName := ''Parameter''\<rparr> in
      case bindE (ReadContentHeader e nd) (\<lambda>(nd, i).
             let i = skipBlockSize e i;
                 i = skipBlockSize e i;
                 i = skipBlockSize e i
             in ReadLen32Text16 e nd i None) of
        Inl err \<Rightarrow> ([], Inl err)
      | Inr (nd, i) \<Rightarrow>
          let nm = name nd;
              translatedName = translate nm;
              renamed = (translatedName \<noteq> nm);
              nd = (if renamed then nd\<lparr>name := translatedName\<rparr> else nd);
              logged = (if renamed
                        then [''    >WARNING - translated parameter name '' @ nm @ '' to ''
                                @ py_repr e translatedName @ ''!'']
                        else []);
              i = i + 4
          in (logged,
              bindE (ReadChildRef e nd i ''refUnit'') (\<lambda>(nd, i).
              bindE (ReadChildRef e nd i ''refValue'') (\<lambda>(nd, i).
              bindE (ReadFloat64 nd i ''valueNominal'') (\<lambda>(nd, i).
              bindE (ReadFloat64 nd i ''valueModel'') (\<lambda>(nd, i).
              bindE (ReadEnum16 e nd i ''tolerance'' ''Tolerances'') (\<lambda>(nd, i).
              ReadSInt16 e nd i ''u16_0'')))))))"

text \<open>A method of the node that leaves the name of the node as it is.\<close>

definition keepsName :: "reader \<Rightarrow> bool" where
  "keepsName f \<longleftrightarrow> (\<forall>nd i nm nd' i'. f nd i nm = Inr (nd', i') \<longrightarrow> name nd' = name nd)"

section \<open>A sample environment\<close>

text \<open>
  One implementation of the parameters, for running the decoders on concrete
  buffers: every block size and every reference is four bytes wide and is
  skipped, an integer field is read with the primitive codec and stored under
  its name, a list is a count followed by no elements, and the text field
  always decodes to the string \<open>t\<close>.
\<close>

definition demoSkip :: "int \<Rightarrow> reader" where
  "demoSkip w nd i nm = Inr (nd, i + w)"

definition demoRead :: "nat \<Rightarrow> reader" where
  "demoRead w nd i nm =
     bindE (unpack_at w (data nd) i) (\<lambda>(x, i). Inr (set_attr nd nm (VInt x), i))"

definition demoList :: "node \<Rightarrow> int \<Rightarrow> listType \<Rightarrow> string \<Rightarrow> error + (node \<times> int)" where
  "demoList nd i t nm =
     bindE (getUInt32 (data nd) i) (\<lambda>(cnt, i). Inr (set_attr nd nm (VList []), i))"

definition demoEnv :: "int \<Rightarrow> string \<Rightarrow> env" where
  "demoEnv v t =
     \<lparr>fileVersion = v,
      skipBlockSize = (\<lambda>i. i + 4),
      py_repr = (\<lambda>s. CHR 0x27 # s @ [CHR 0x27]),
      Read_Header0 = (\<lambda>nd. Inr (nd, 4)),
      ReadParentRef = (\<lambda>nd i. Inr (nd, i + 4)),
      ReadChildRef = demoSkip 4,
      ReadCrossRef = demoSkip 4,
      ReadUInt8 = demoRead 1,
      ReadUInt16 = demoRead 2,
      ReadUInt32 = demoRead 4,
      ReadSInt16 = demoRead 2,
      ReadSInt32 = demoRead 4,
      ReadUUID = demoSkip 16,
      ReadBoolean = demoRead 1,
      ReadEnum16 = (\<lambda>nd i nm en. demoRead 2 nd i nm),
      ReadUInt16A = (\<lambda>nd i n nm. Inr (nd, i + 2 * n)),
      ReadUInt32A = (\<lambda>nd i n nm. Inr (nd, i + 4 * n)),
      ReadLen32Text16 = (\<lambda>nd i nm.
         case nm of None \<Rightarrow> Inr (nd\<lparr>name := t\<rparr>, i + 4)
         | Some k \<Rightarrow> Inr (set_attr nd k (VStr t), i + 4)),
      ReadList2 = demoList,
      ReadList6 = (\<lambda>nd i t nm. demoList nd i t (case nm of None \<Rightarrow> ''lst0'' | Some k \<Rightarrow> k)),
      ReadList8 = demoList\<rparr>"

definition demoNode :: "byte list \<Rightarrow> node" where
  "demoNode dat =
     \<lparr>offset = 0, size = int (length dat), typeID = Tag 0, typeName = [], data = dat,
      content = [], name = [], visible = False, dimensioningVisible = False,
      childIndexes = [], attrs = []\<rparr>"


section \<open>\<^verbatim>\<open>ReadFile\<close> of \<^verbatim>\<open>Import_IPT\<close>\<close>

text \<open>
  What \<^verbatim>\<open>ReadFile\<close> takes from outside: the name of the file set by
  \<^verbatim>\<open>setInventorFile\<close>, the test \<^verbatim>\<open>isOleFile\<close> and the stream names \<^verbatim>\<open>listdir\<close> of
  the \<^verbatim>\<open>olefile\<close> library, the decoding of one stream by \<^verbatim>\<open>ReadElement\<close>, the
  time stamp, and the value of the global name \<^verbatim>\<open>infile\<close>: the module never
  assigns it, so it is bound only if \<^verbatim>\<open>from importerReader import *\<close> binds it,
  and \<open>None\<close> stands for the unbound name.
\<close>

record fileWorld =
  inventorFile :: string
  isOleFile :: "string \<Rightarrow> bool"
  listdir :: "string \<Rightarrow> string list list"
  ReadElement :: "string list \<Rightarrow> int \<Rightarrow> error + unit"
  timeStamp :: string
  infile :: "string option"

datatype logEntry = LogError string | LogInfo string

text \<open>
  What \<^verbatim>\<open>ReadFile\<close> does: the streams handed to \<^verbatim>\<open>ReadElement\<close> with their
  counters, the messages logged, the comment set on the document, and the value
  returned or the exception raised.  Creating the dump folder is left out.
\<close>

record outcome =
  decoded :: "(string list \<times> int) list"
  logged :: "logEntry list"
  comment :: "string option"
  ret :: "error + bool"

text \<open>Python's \<^verbatim>\<open>s.startswith(p)\<close> and \<^verbatim>\<open>list.insert(i, x)\<close> for \<open>0 \<le> i\<close>.\<close>

definition startswith :: "string \<Rightarrow> string \<Rightarrow> bool" where
  "startswith s p \<longleftrightarrow> take (length p) s = p"

definition list_insert :: "'a list \<Rightarrow> nat \<Rightarrow> 'a \<Rightarrow> 'a list" where
  "list_insert xs i x = take i xs @ [x] @ drop i xs"

text \<open>
  The first loop of \<^verbatim>\<open>ReadFile\<close> orders the streams: the streams \<open>RSe...\<close> come
  first, \<open>RSeDb\<close> in front of them, and the streams \<open>B...\<close> inside a storage are
  dropped.  The state is the list built so far and the index \<open>first\<close>.
\<close>

fun orderStreams ::
  "string list list \<Rightarrow> string list list \<times> nat \<Rightarrow> error + (string list list \<times> nat)" where
  "orderStreams [] st = Inr st"
| "orderStreams (fname # elements) (lst, first) =
     (if length fname = 1 then orderStreams elements (lst @ [fname], first)
      else if fname = [] then Inl IndexError
      else if startswith (last fname) ''RSe'' then
        orderStreams elements
          (list_insert lst first fname, if last fname = ''RSeDb'' then first + 1 else first)
      else if \<not> startswith (last fname) ''B'' then orderStreams elements (lst @ [fname], first)
      else orderStreams elements (lst, first))"

text \<open>The second loop decodes the streams in that order, counting from \<open>counter\<close>.\<close>

fun readElements ::
  "fileWorld \<Rightarrow> string list list \<Rightarrow> int \<Rightarrow> (string list \<times> int) list \<Rightarrow>
   (string list \<times> int) list \<times> (error + unit)" where
  "readElements w [] counter done = (done, Inr ())"
| "readElements w (fname # lst) counter done =
     (case ReadElement w fname counter of
        Inl err \<Rightarrow> (done @ [(fname, counter)], Inl err)
      | Inr u \<Rightarrow> readElements w lst (counter + 1) (done @ [(fname, counter)]))"

definition ReadFile :: "fileWorld \<Rightarrow> outcome" where
  "ReadFile w =
     (if isOleFile w (inventorFile w) then
        (case orderStreams (listdir w (inventorFile w)) ([], 0) of
           Inl err \<Rightarrow> \<lparr>decoded = [], logged = [], comment = None, ret = Inl err\<rparr>
         | Inr (lst, first) \<Rightarrow>
             (case readElements w lst 1 [] of
                (done, Inl err) \<Rightarrow>
                  \<lparr>decoded = done, logged = [], comment = None, ret = Inl err\<rparr>
              | (done, Inr u) \<Rightarrow>
                  \<lparr>decoded = done,
                   logged = [LogInfo (''Dumped data to folder: '' @ [CHR 0x27]
                               @ py_slice (inventorFile w) 0 (- 4) @ [CHR 0x27])],
                   comment = Some (''# '' @ timeStamp w @ '': read from '' @ inventorFile w),
                   ret = Inr True\<rparr>))
      else
        (case infile w of
           None \<Rightarrow> \<lparr>decoded = [], logged = [], comment = None, ret = Inl (NameError ''infile'')\<rparr>
         | Some f \<Rightarrow>
             \<lparr>decoded = [],
              logged = [LogError (''Error - '' @ [CHR 0x27] @ f @ [CHR 0x27]
                          @ '' is not a valid Autodesk Inventor file.'')],
              comment = None, ret = Inr False\<rparr>))"

section \<open>The reader and the decoders that use its document type\<close>

text \<open>
  A \<^verbatim>\<open>DCReader\<close> keeps the type of the document in \<^verbatim>\<open>self.type\<close>.  Its
  \<^verbatim>\<open>__init__\<close> does not set the attribute and hands over to the constructor of
  \<^verbatim>\<open>SegmentReader\<close>, which is not part of the sources at hand.  \<open>None\<close> is the
  state of a reader without the attribute, in which reading it raises
  \<^verbatim>\<open>AttributeError\<close>; \<open>Some t\<close> is a reader that holds \<open>t\<close>.  A decoder returns
  the reader next to its result, since an assignment to \<^verbatim>\<open>self.type\<close> stays
  when a later read raises, and stays for the next segment that the reader
  decodes.
\<close>

record dcReader =
  self_type :: "int option"

definition DOC_ASSEMBLY :: int where "DOC_ASSEMBLY = 1"
definition DOC_DRAWING :: int where "DOC_DRAWING = 2"
definition DOC_PART :: int where "DOC_PART = 3"
definition DOC_PRESENTATION :: int where "DOC_PRESENTATION = 4"

definition get_type :: "dcReader \<Rightarrow> error + int" where
  "get_type s = (case self_type s of None \<Rightarrow> Inl (AttributeError ''type'') | Some t \<Rightarrow> Inr t)"

text \<open>\<^verbatim>\<open>Read_452121B6\<close>, the decoder of the transaction manager of the modeler.\<close>

definition Read_452121B6 :: "env \<Rightarrow> dcReader \<Rightarrow> node \<Rightarrow> dcReader \<times> (error + (node \<times> int))" where
  "Read_452121B6 e s nd =
     (s,
      let nd = nd\<lparr>typeName := ''ModelerTxnMgr''\<rparr> in
      bindE (Read_Header0 e nd) (\<lambda>(nd, i).
      bindE (ReadChildRef e nd i ''ref_1'') (\<lambda>(nd, i).
      bindE (ReadUInt32 e nd i ''flags'') (\<lambda>(nd, i).
      let i = skipBlockSize e i in
      bindE (ReadParentRef e nd i) (\<lambda>(nd, i).
      bindE (ReadChildRef e nd i ''ref_2'') (\<lambda>(nd, i).
      bindE (ReadUInt32 e nd i ''u32_0'') (\<lambda>(nd, i).
      bindE (if fileVersion e > 2011
             then bindE (get_type s) (\<lambda>t. Inr (if t = DOC_PART then i + 4 else i))
             else Inr i) (\<lambda>i.
      bindE (ReadUInt32 e nd i ''u32_1'') (\<lambda>(nd, i).
      bindE (ReadList6 e nd i TYP_MAP_MDL_TXN_MGR None) (\<lambda>(nd, i).
      ReadUInt32 e nd i ''u32_2''))))))))))"

text \<open>\<^verbatim>\<open>Read_90874D16\<close>, the decoder of the document of a part.\<close>

definition Read_90874D16 :: "env \<Rightarrow> dcReader \<Rightarrow> node \<Rightarrow> dcReader \<times> (error + (node \<times> int))" where
  "Read_90874D16 e s nd =
     (s\<lparr>self_type := Some DOC_PART\<rparr>,
      let nd = nd\<lparr>typeName := ''Document''\<rparr> in
      bindE (Read_Header0 e nd) (\<lambda>(nd, i).
      bindE (ReadChildRef e nd i ''label'') (\<lambda>(nd, i).
      bindE (ReadUInt32 e nd i ''u32_0'') (\<lambda>(nd, i).
      let i = skipBlockSize e i in
      bindE (ReadUUID e nd i ''uid_0'') (\<lambda>(nd, i).
      bindE (ReadLen32Text16 e nd i None) (\<lambda>(nd, i).
      bindE (ReadList2 e nd i TYP_NODE_REF ''lst0'') (\<lambda>(nd, i).
      bindE (ReadUInt16A e nd i 6 ''a0'') (\<lambda>(nd, i).
      let i = skipBlockSize e i in
      bindE (ReadChildRef e nd i ''refElements'') (\<lambda>(nd, i).
      bindE (ReadChildRef e nd i ''ref_1'') (\<lambda>(nd, i).
      let i = skipBlockSize e i in
      bindE (ReadChildRef e nd i ''ref_2'') (\<lambda>(nd, i).
      bindE (ReadChildRef e nd i ''refWorkbook'') (\<lambda>(nd, i).
      bindE (ReadChildRef e nd i ''cld_1'') (\<lambda>(nd, i).
      bindE (ReadChildRef e nd i ''cld_2'') (\<lambda>(nd, i).
      let i = skipBlockSize e i in
      bindE (ReadCrossRef e nd i ''ref_3'') (\<lambda>(nd, i).
      bindE (ReadUInt16A e nd i 2 ''a0'') (\<lambda>(nd, i).
      bindE (ReadChildRef e nd i ''ref_5'') (\<lambda>(nd, i).
      bindE (ReadUInt32 e nd i ''u32_2'') (\<lambda>(nd, i).
      bindE (ReadChildRef e nd i ''red_6'') (\<lambda>(nd, i).
      let i = skipBlockSize e i in
      bindE (ReadCrossRef e nd i ''ref_7'') (\<lambda>(nd, i).
      bindE (ReadLen32Text16 e nd i (Some ''refSegName'')) (\<lambda>(nd, i).
      bindE (ReadFloat64 nd i ''f64_0'') (\<lambda>(nd, i).
      ReadCrossRef e nd i ''ref_8''))))))))))))))))))))))"

text \<open>\<^verbatim>\<open>Read_90874D46\<close>, the decoder of the document of an assembly.\<close>

definition Read_90874D46 :: "env \<Rightarrow> dcReader \<Rightarrow> node \<Rightarrow> dcReader \<times> (error + (node \<times> int))" where
  "Read_90874D46 e s nd =
     (s\<lparr>self_type := Some DOC_ASSEMBLY\<rparr>,
      let nd = nd\<lparr>typeName := ''Document''\<rparr> in
      bindE (Read_Header0 e nd) (\<lambda>(nd, i).
      bindE (ReadChildRef e nd i ''label'') (\<lambda>(nd, i).
      bindE (ReadUInt32 e nd i ''u32_0'') (\<lambda>(nd, i).
      let i = skipBlockSize e i in
      bindE (ReadUUID e nd i ''uid_0'') (\<lambda>(nd, i).
      bindE (ReadLen32Text16 e nd i None) (\<lambda>(nd, i).
      bindE (ReadList2 e nd i TYP_NODE_REF ''lst0'') (\<lambda>(nd, i).
      bindE (ReadUInt32A e nd i 3 ''a0'') (\<lambda>(nd, i).
      let i = skipBlockSize e i in
      bindE (ReadChildRef e nd i ''refElements'') (\<lambda>(nd, i).
      bindE (ReadChildRef e nd i ''ref_1'') (\<lambda>(nd, i).
      let i = skipBlockSize e i in
      bindE (ReadChildRef e nd i ''ref_2'') (\<lambda>(nd, i).
      bindE (ReadUInt32 e nd i ''u32_1'') (\<lambda>(nd, i).
      bindE (ReadChildRef e nd i ''ref_3'') (\<lambda>(nd, i).
      bindE (ReadChildRef e nd i ''ref_4'') (\<lambda>(nd, i).
      let i = skipBlockSize e i in
      bindE (ReadUInt32A e nd i 2 ''a2'') (\<lambda>(nd, i).
      bindE (ReadChildRef e nd i ''ref_5'') (\<lambda>(nd, i).
      bindE (ReadUInt32 e nd i ''u32_2'') (\<lambda>(nd, i).
      bindE (ReadChildRef e nd i ''ref_6'') (\<lambda>(nd, i).
      let i = skipBlockSize e i in
      bindE (ReadUInt32 e nd i ''u32_2'') (\<lambda>(nd, i).
      bindE (ReadChildRef e nd i ''ref_7'') (\<lambda>(nd, i).
      bindE (ReadUInt32 e nd i ''u32_3'') (\<lambda>(nd, i).
      bindE (ReadList2 e nd i TYP_NODE_REF ''lst1'') (\<lambda>(nd, i).
      bindE (ReadChildRef e nd i ''ref_8'') (\<lambda>(nd, i).
      bindE (ReadChildRef e nd i ''ref_9'') (\<lambda>(nd, i).
      bindE (ReadChildRef e nd i ''ref_A'') (\<lambda>(nd, i).
        if fileVersion e > 2012 then ReadChildRef e nd i ''ref_B''
        else Inr (nd, i))))))))))))))))))))))))))"

text \<open>\<^verbatim>\<open>Read_6CA92D02\<close>, the other decoder that reads \<^verbatim>\<open>self.type\<close>.\<close>

definition Read_6CA92D02 :: "env \<Rightarrow> dcReader \<Rightarrow> node \<Rightarrow> dcReader \<times> (error + (node \<times> int))" where
  "Read_6CA92D02 e s nd =
     (s,
      bindE (ReadContentHeader e nd) (\<lambda>(nd, i).
      let i = skipBlockSize e i in
      bindE (ReadSInt32 e nd i ''s32_0'') (\<lambda>(nd, i).
      let i = skipBlockSize e i;
          i = skipBlockSize e i in
      bindE (ReadUInt8 e nd i ''u8_0'') (\<lambda>(nd, i).
      bindE (ReadUInt32 e nd i ''u32_0'') (\<lambda>(nd, i).
      bindE (ReadUInt8 e nd i ''u8_1'') (\<lambda>(nd, i).
      bindE (get_type s) (\<lambda>t.
        if t = DOC_ASSEMBLY then ReadLen32Text16 e nd i (Some ''txt'')
        else
          let i = skipBlockSize e i in
          bindE (ReadUInt32 e nd i ''u32_1'') (\<lambda>(nd, i).
          let i = (if fileVersion e > 2017 then i + 4 else skipBlockSize e i) in
          bindE (ReadUInt32 e nd i ''u32_2'') (\<lambda>(nd, i).
          let i = skipBlockSize e i in
          bindE (ReadList8 e nd i TYP_1D_UINT32 ''lst0'') (\<lambda>(nd, i).
          bindE (ReadList8 e nd i TYP_1D_UINT32 ''lst1'') (\<lambda>(nd, i).
          bindE (ReadUInt8 e nd i ''u8_1'') (\<lambda>(nd, i).
          let i = skipBlockSize e i in
          bindE (ReadCrossRef e nd i ''ref_1'') (\<lambda>(nd, i).
          bindE (ReadCrossRef e nd i ''ref_2'') (\<lambda>(nd, i).
          bindE (ReadUInt32 e nd i ''u32_3'') (\<lambda>(nd, i).
          ReadUInt8 e nd i ''u8_2'')))))))))))))))"

text \<open>
  Modelled from the spec: the segment reader (\<^verbatim>\<open>importerSegment\<close>) is not part of
  the sources at hand.  It decodes the nodes of a segment one by one in stream
  order, each by the decoder that the name of its type selects; an error of a
  node aborts the decoding of the segment.  The four decoders above are the
  ones of \<^verbatim>\<open>DCReader\<close> that read or write \<^verbatim>\<open>self.type\<close>; every other decoder is
  the parameter \<open>other\<close>, which sees the node only.  The references of the
  decoded nodes are resolved afterwards by \<open>resolve\<close>, from the nodes alone.
\<close>

definition decodeNode ::
  "env \<Rightarrow> (node \<Rightarrow> error + (node \<times> int)) \<Rightarrow> dcReader \<Rightarrow> node \<Rightarrow>
   dcReader \<times> (error + (node \<times> int))" where
  "decodeNode e other s nd =
     (if typeName nd = ''452121B6'' then Read_452121B6 e s nd
      else if typeName nd = ''6CA92D02'' then Read_6CA92D02 e s nd
      else if typeName nd = ''90874D16'' then Read_90874D16 e s nd
      else if typeName nd = ''90874D46'' then Read_90874D46 e s nd
      else (s, other nd))"

fun decodeNodes ::
  "env \<Rightarrow> (node \<Rightarrow> error + (node \<times> int)) \<Rightarrow> dcReader \<Rightarrow> node list \<Rightarrow>
   dcReader \<times> (error + node list)" where
  "decodeNodes e other s [] = (s, Inr [])"
| "decodeNodes e other s (nd # nds) =
     (case decodeNode e other s nd of
        (s', Inl err) \<Rightarrow> (s', Inl err)
      | (s', Inr (nd', i)) \<Rightarrow>
          (case decodeNodes e other s' nds of
             (s'', Inl err) \<Rightarrow> (s'', Inl err)
           | (s'', Inr nds') \<Rightarrow> (s'', Inr (nd' # nds'))))"





section \<open>Properties of the primitive codec\<close>

lemma bindE_Inr [simp]: "bindE (Inr x) f = f x"
  by (simp add: bindE_def)

lemma bindE_Inl [simp]: "bindE (Inl e) f = Inl e"
  by (simp add: bindE_def)

lemma bindE_eq_Inr:
  "bindE m f = Inr y \<longleftrightarrow> (\<exists>x. m = Inr x \<and> f x = Inr y)"
  by (cases m) simp_all

lemma unpack_at_Inr:
  "unpack_at w dat off = Inr (v, i) \<longleftrightarrow>
     0 \<le> off \<and> off + int w \<le> int (length dat) \<and>
     v = le_val (take w (drop (nat off) dat)) \<and> i = off + int w"
  by (auto simp: unpack_at_def)

lemma unpack_at_Inl:
  "unpack_at w dat off = Inl e \<longleftrightarrow>
     (off < 0 \<or> int (length dat) < off + int w) \<and> e = StructError off"
  by (auto simp: unpack_at_def)

section \<open>The self-correcting size of \<^verbatim>\<open>setNodeData\<close>\<close>

lemma getUInt32_Inr:
  "getUInt32 dat off = Inr (v, i) \<longleftrightarrow>
     0 \<le> off \<and> off + 4 \<le> int (length dat) \<and>
     v = le_val (take 4 (drop (nat off) dat)) \<and> i = off + 4"
  by (auto simp: getUInt32_def unpack_at_Inr)

lemma getUInt32_Inl:
  "getUInt32 dat off = Inl e \<longleftrightarrow>
     (off < 0 \<or> int (length dat) < off + 4) \<and> e = StructError off"
  by (auto simp: getUInt32_def unpack_at_Inl)

lemma getUInt32_snd: "getUInt32 dat off = Inr r \<Longrightarrow> snd r = off + 4"
  by (cases r) (simp add: getUInt32_Inr)

lemma scanMarker_found:
  assumes "getUInt32 dat i = Inr (s, i + 4)" and "i \<le> p"
    and "getUInt32 dat p = Inr (sz, p + 4)"
    and "\<forall>q \<in> {i ..< p}. getUInt32 dat q \<noteq> Inr (sz, q + 4)"
  shows "scanMarker dat sz i s = Inr p"
  using assms
proof (induction dat sz i s rule: scanMarker.induct)
  case (1 dat sz i s)
  show ?case
  proof (cases "i = p")
    case True
    with "1.prems" have "s = sz" by simp
    then show ?thesis using True by simp
  next
    case False
    with "1.prems" have lt: "i < p" by simp
    have ne: "s \<noteq> sz" using "1.prems"(1,4) lt by auto
    have inb: "i < int (length dat)" "i + 1 + 4 \<le> int (length dat)" "0 \<le> i"
      using "1.prems"(1,3) lt by (auto simp: getUInt32_Inr)
    obtain s' where rd: "getUInt32 dat (i + 1) = Inr (s', i + 1 + 4)"
      using inb by (auto simp: getUInt32_Inr)
    have "scanMarker dat sz (i + 1) s' = Inr p"
      using "1.IH"[of "(s', i + 1 + 4)"] ne inb rd lt "1.prems"(3,4) by auto
    then show ?thesis using ne inb rd by simp
  qed
qed

lemma scanMarker_Inr:
  assumes "scanMarker dat sz i s = Inr p" and "getUInt32 dat i = Inr (s, i + 4)"
  shows "i \<le> p \<and> getUInt32 dat p = Inr (sz, p + 4) \<and>
         (\<forall>q \<in> {i ..< p}. getUInt32 dat q \<noteq> Inr (sz, q + 4))"
  using assms
proof (induction dat sz i s arbitrary: p rule: scanMarker.induct)
  case (1 dat sz i s)
  have inb: "i < int (length dat)" using "1.prems"(2) by (auto simp: getUInt32_Inr)
  show ?case
  proof (cases "s = sz")
    case True
    then show ?thesis using "1.prems" by simp
  next
    case False
    then obtain r where rd: "getUInt32 dat (i + 1) = Inr r"
      and rec: "scanMarker dat sz (i + 1) (fst r) = Inr p"
      using "1.prems"(1) inb by (auto split: sum.splits)
    have r: "r = (fst r, i + 1 + 4)" using getUInt32_snd[OF rd] by (cases r) simp
    have IH: "i + 1 \<le> p \<and> getUInt32 dat p = Inr (sz, p + 4) \<and>
         (\<forall>q \<in> {i + 1 ..< p}. getUInt32 dat q \<noteq> Inr (sz, q + 4))"
      using "1.IH"[OF _ rd rec] False inb rd r by auto
    have "getUInt32 dat i \<noteq> Inr (sz, i + 4)" using "1.prems"(2) False by simp
    moreover have "{i ..< p} = insert i {i + 1 ..< p}" using IH by auto
    ultimately show ?thesis using IH by auto
  qed
qed

lemma scanMarker_overrun:
  assumes "getUInt32 dat i = Inr (s, i + 4)"
    and "\<forall>q \<in> {i .. int (length dat) - 4}. getUInt32 dat q \<noteq> Inr (sz, q + 4)"
  shows "scanMarker dat sz i s = Inl (StructError (int (length dat) - 3))"
  using assms
proof (induction dat sz i s rule: scanMarker.induct)
  case (1 dat sz i s)
  have inb: "0 \<le> i" "i + 4 \<le> int (length dat)" using "1.prems"(1) by (auto simp: getUInt32_Inr)
  have ne: "s \<noteq> sz" using "1.prems" inb by auto
  show ?case
  proof (cases "i + 1 + 4 \<le> int (length dat)")
    case True
    then obtain s' where rd: "getUInt32 dat (i + 1) = Inr (s', i + 1 + 4)"
      using inb by (auto simp: getUInt32_Inr)
    have "scanMarker dat sz (i + 1) s' = Inl (StructError (int (length dat) - 3))"
      using "1.IH"[of "(s', i + 1 + 4)"] ne inb rd "1.prems"(2) by auto
    then show ?thesis using ne inb rd by simp
  next
    case False
    then have "i + 1 = int (length dat) - 3" using inb by simp
    moreover have "getUInt32 dat (i + 1) = Inl (StructError (i + 1))"
      using False by (simp add: getUInt32_Inl)
    ultimately show ?thesis using ne inb by simp
  qed
qed


lemma setNodeData_unfold:
  assumes "getUInt8 dat (offset nd - 4) = Inr (tb, j)"
  shows "setNodeData gnt nd dat seg =
     bindE
       (case gnt tb seg of
          UUID tlow tmid thi cseq nid \<Rightarrow>
            bindE (getUInt32 dat (offset nd + size nd)) (\<lambda>(s, dummy).
              if s \<noteq> size nd \<and> (tlow = 0x2B48A42B \<or> tlow = 0x90874D63) then
                bindE (scanMarker dat (size nd) (offset nd + size nd) s) (\<lambda>i'.
                  Inr (nd\<lparr>typeID := gnt tb seg, typeName := fmtX 8 tlow, size := i' - offset nd\<rparr>))
              else Inr (nd\<lparr>typeID := gnt tb seg, typeName := fmtX 8 tlow\<rparr>))
        | Tag t \<Rightarrow> Inr (nd\<lparr>typeID := gnt tb seg, typeName := fmtX 8 t\<rparr>))
       (\<lambda>nd3. Inr (nd3\<lparr>data := py_slice dat (offset nd) (offset nd + size nd3)\<rparr>))"
  using assms
  by (cases "getUInt32 dat (offset nd + size nd)")
     (auto simp: setNodeData_def Let_def split: typeID.splits prod.splits)

text \<open>
  Claim C1.  Let the type byte in front of the node be readable.  For a node whose
  type is a UUID with \<open>time_low\<close> 0x2B48A42B or 0x90874D63 and whose size marker
  at \<open>offset + size\<close> differs from the declared size, \<^verbatim>\<open>setNodeData\<close> scans
  forward byte by byte: if \<open>p\<close> is the first position whose marker equals the
  declared size, it returns with the size \<open>p - offset\<close>, and whenever it returns
  the new size is the distance to that first position.  For every other node the
  declared size is kept.
\<close>

theorem setNodeData_size:
  assumes tb: "getUInt8 dat (offset nd - 4) = Inr (tb, j)"
  shows "case gnt tb seg of
           UUID tlow tmid thi cseq nid \<Rightarrow>
             (\<forall>s0 j0. getUInt32 dat (offset nd + size nd) = Inr (s0, j0) \<longrightarrow>
                (if s0 \<noteq> size nd \<and> (tlow = 0x2B48A42B \<or> tlow = 0x90874D63) then
                   (\<forall>p. realigned dat nd p \<longrightarrow>
                      (\<exists>nd'. setNodeData gnt nd dat seg = Inr nd' \<and> size nd' = p - offset nd)) \<and>
                   (\<forall>nd'. setNodeData gnt nd dat seg = Inr nd' \<longrightarrow>
                      realigned dat nd (offset nd + size nd'))
                 else (\<exists>nd'. setNodeData gnt nd dat seg = Inr nd' \<and> size nd' = size nd)))
         | Tag t \<Rightarrow> (\<exists>nd'. setNodeData gnt nd dat seg = Inr nd' \<and> size nd' = size nd)"
proof (cases "gnt tb seg")
  case (Tag t)
  then show ?thesis by (simp add: setNodeData_unfold[OF tb])
next
  case (UUID tlow tmid thi cseq nid)
  have "(if s0 \<noteq> size nd \<and> (tlow = 0x2B48A42B \<or> tlow = 0x90874D63) then
           (\<forall>p. realigned dat nd p \<longrightarrow>
              (\<exists>nd'. setNodeData gnt nd dat seg = Inr nd' \<and> size nd' = p - offset nd)) \<and>
           (\<forall>nd'. setNodeData gnt nd dat seg = Inr nd' \<longrightarrow>
              realigned dat nd (offset nd + size nd'))
         else (\<exists>nd'. setNodeData gnt nd dat seg = Inr nd' \<and> size nd' = size nd))"
    if m0: "getUInt32 dat (offset nd + size nd) = Inr (s0, j0)" for s0 j0
  proof (cases "s0 \<noteq> size nd \<and> (tlow = 0x2B48A42B \<or> tlow = 0x90874D63)")
    case False
    then show ?thesis
      using UUID m0 by (auto simp: setNodeData_unfold[OF tb])
  next
    case True
    have j0: "j0 = offset nd + size nd + 4" using m0 by (simp add: getUInt32_Inr)
    have tot: "\<exists>nd'. setNodeData gnt nd dat seg = Inr nd' \<and> size nd' = p - offset nd"
      if "realigned dat nd p" for p
    proof -
      have "scanMarker dat (size nd) (offset nd + size nd) s0 = Inr p"
        using that m0 j0 by (intro scanMarker_found) (auto simp: realigned_def)
      then show ?thesis
        using UUID m0 True by (auto simp: setNodeData_unfold[OF tb])
    qed
    have part: "realigned dat nd (offset nd + size nd')"
      if "setNodeData gnt nd dat seg = Inr nd'" for nd'
    proof -
      from that obtain p where sc: "scanMarker dat (size nd) (offset nd + size nd) s0 = Inr p"
        and sz: "size nd' = p - offset nd"
        using UUID m0 True
        by (auto simp: setNodeData_unfold[OF tb] bindE_eq_Inr)
      have "realigned dat nd p"
        using scanMarker_Inr[OF sc] m0 j0 by (simp add: realigned_def)
      then show ?thesis using sz by simp
    qed
    show ?thesis using True tot part by simp
  qed
  then have "\<forall>s0 j0. getUInt32 dat (offset nd + size nd) = Inr (s0, j0) \<longrightarrow>
           (if s0 \<noteq> size nd \<and> (tlow = 0x2B48A42B \<or> tlow = 0x90874D63) then
              (\<forall>p. realigned dat nd p \<longrightarrow>
                 (\<exists>nd'. setNodeData gnt nd dat seg = Inr nd' \<and> size nd' = p - offset nd)) \<and>
              (\<forall>nd'. setNodeData gnt nd dat seg = Inr nd' \<longrightarrow>
                 realigned dat nd (offset nd + size nd'))
            else (\<exists>nd'. setNodeData gnt nd dat seg = Inr nd' \<and> size nd' = size nd))"
    by blast
  then show ?thesis by (simp only: UUID typeID.case)
qed

theorem setNodeData_size_witness:
  "getUInt8 [1,0,0,0, 9,9, 7, 2,0,0,0] 0 = Inr (1, 1) \<and>
   getUInt32 [1,0,0,0, 9,9, 7, 2,0,0,0] 6 = Inr (519, 10) \<and>
   realigned [1,0,0,0, 9,9, 7, 2,0,0,0]
     \<lparr>offset = 4, size = 2, typeID = Tag 0, typeName = [], data = [], content = [],
      name = [], visible = False, dimensioningVisible = False, childIndexes = [], attrs = []\<rparr> 7 \<and>
   (\<exists>nd'. setNodeData (\<lambda>b seg. UUID 0x2B48A42B 0 0 0 0)
     \<lparr>offset = 4, size = 2, typeID = Tag 0, typeName = [], data = [], content = [],
      name = [], visible = False, dimensioningVisible = False, childIndexes = [], attrs = []\<rparr>
     [1,0,0,0, 9,9, 7, 2,0,0,0] () = Inr nd' \<and> size nd' = 3)"
proof -
  let ?dat = "[1,0,0,0, 9,9, 7, 2,0,0,0] :: byte list"
  let ?nd = "\<lparr>offset = 4, size = 2, typeID = Tag 0, typeName = [], data = [], content = [],
      name = [], visible = False, dimensioningVisible = False, childIndexes = [], attrs = []\<rparr>"
  let ?gnt = "\<lambda>(b::int) (seg::unit). UUID 0x2B48A42B 0 0 0 0"
  have tb: "getUInt8 ?dat (offset ?nd - 4) = Inr (1, 1)"
    by (simp add: getUInt8_def unpack_at_def)
  have m6: "getUInt32 ?dat 6 = Inr (519, 10)"
    by (simp add: getUInt32_def unpack_at_def)
  have m7: "getUInt32 ?dat 7 = Inr (2, 11)"
    by (simp add: getUInt32_def unpack_at_def)
  have "{6 ..< 7} = {6::int}" by auto
  then have re: "realigned ?dat ?nd 7"
    using m6 m7 by (simp add: realigned_def)
  have "\<forall>p. realigned ?dat ?nd p \<longrightarrow>
          (\<exists>nd'. setNodeData ?gnt ?nd ?dat () = Inr nd' \<and> size nd' = p - offset ?nd)"
    using setNodeData_size[OF tb, of ?gnt "()"] m6 by simp
  then have "\<exists>nd'. setNodeData ?gnt ?nd ?dat () = Inr nd' \<and> size nd' = 7 - offset ?nd"
    using re by blast
  then show ?thesis using tb m6 re by simp
qed

text \<open>
  Claim C10.  The guard \<^verbatim>\<open>i < len(data)\<close> of the scan does not keep the 4-byte
  read at \<open>i + 1\<close> inside the buffer.  On a buffer of 10 bytes whose node (offset
  4, declared size 2) has the marker 7 at position 6 and no realigning marker
  behind it, the scan reads at position 7, which is \<open>len(data) - 3\<close>, and
  \<^verbatim>\<open>setNodeData\<close> ends with the error of that read.
\<close>

theorem setNodeData_overrun_example:
  "setNodeData (\<lambda>b seg. UUID 0x2B48A42B 0 0 0 0)
     \<lparr>offset = 4, size = 2, typeID = Tag 0, typeName = [], data = [], content = [],
      name = [], visible = False, dimensioningVisible = False, childIndexes = [], attrs = []\<rparr>
     [1,0,0,0, 9,9, 7,0,0,0] () = Inl (StructError 7)"
proof -
  let ?dat = "[1,0,0,0, 9,9, 7,0,0,0] :: byte list"
  have tb: "getUInt8 ?dat 0 = Inr (1, 1)"
    by (simp add: getUInt8_def unpack_at_def)
  have m6: "getUInt32 ?dat 6 = Inr (7, 10)"
    by (simp add: getUInt32_def unpack_at_def)
  have m7: "getUInt32 ?dat 7 = Inl (StructError 7)"
    by (simp add: getUInt32_def unpack_at_def)
  show ?thesis
    by (simp add: setNodeData_def tb m6 m7)
qed

lemma getUInt16_ok:
  "0 \<le> off \<Longrightarrow> off + 2 \<le> int (length dat) \<Longrightarrow> getUInt16 dat off = Inr (u16At dat off, off + 2)"
  by (simp add: getUInt16_def unpack_at_def u16At_def)

lemma getUInt32_ok:
  "0 \<le> off \<Longrightarrow> off + 4 \<le> int (length dat) \<Longrightarrow> getUInt32 dat off = Inr (u32At dat off, off + 4)"
  by (simp add: getUInt32_def unpack_at_def u32At_def)

lemma getUInt8_ok:
  "0 \<le> off \<Longrightarrow> off + 1 \<le> int (length dat) \<Longrightarrow> getUInt8 dat off = Inr (u8At dat off, off + 1)"
  by (simp add: getUInt8_def unpack_at_def u8At_def)

lemma ReadNodeRef_ok:
  assumes "0 \<le> off" and "off + 4 \<le> int (length (data nd))"
  shows "ReadNodeRef c nd off num t =
     Inr (case refAt c (data nd) off num t of
            None \<Rightarrow> nd
          | Some r \<Rightarrow> nd\<lparr>childIndexes := childIndexes nd @ [r]\<rparr>,
          refAt c (data nd) off num t, off + 4)"
  using assms
  by (simp add: ReadNodeRef_def getUInt16_ok NodeRef_def refAt_def Let_def)

text \<open>
  Claim C3.  When the four bytes at \<open>off\<close> lie inside the data of the node,
  \<^verbatim>\<open>ReadNodeRef\<close> decodes the two 16-bit words \<open>n\<close> and \<open>m\<close>; if the index of the
  reference built from them is not positive the result is null and the node,
  with its queue \<open>childIndexes\<close>, is unchanged; otherwise the reference carries
  the given number and is appended to the queue; in both cases the new offset
  is \<open>off + 4\<close>.
\<close>

theorem ReadNodeRef_null_or_queued:
  assumes "0 \<le> off" and "off + 4 \<le> int (length (data nd))"
  shows "\<exists>n m. getUInt16 (data nd) off = Inr (n, off + 2) \<and>
               getUInt16 (data nd) (off + 2) = Inr (m, off + 4) \<and>
           (if ref_index c n m \<le> 0 then
              ReadNodeRef c nd off num t = Inr (nd, None, off + 4)
            else
              ReadNodeRef c nd off num t =
                Inr (nd\<lparr>childIndexes := childIndexes nd @
                          [\<lparr>index = ref_index c n m, refType = t, number = num\<rparr>]\<rparr>,
                     Some \<lparr>index = ref_index c n m, refType = t, number = num\<rparr>, off + 4))"
  using assms
  by (simp add: ReadNodeRef_def getUInt16_ok NodeRef_def Let_def)


lemma le_val_nonneg: "0 \<le> le_val bs"
  by (induction bs) simp_all

lemma readListLoop_ok:
  assumes body: "\<And>nd i j. data nd = dat \<Longrightarrow> 0 \<le> i \<Longrightarrow> i + w \<le> int (length dat) \<Longrightarrow>
            \<exists>nd' txt. body nd i j = Inr (nd', el i j, txt, i + w) \<and>
                      data nd' = dat \<and> attrs nd' = attrs nd"
    and "data nd = dat" and "0 \<le> i" and "0 \<le> w" and "j \<le> cnt"
    and "i + w * (cnt - j) \<le> int (length dat)"
  shows "\<exists>nd'. readListLoop body nd cnt i j sep lst =
                 Inr (nd', i + w * (cnt - j),
                      lst @ map (\<lambda>k. el (i + w * (k - j)) k) [j..cnt - 1]) \<and>
               data nd' = dat \<and> attrs nd' = attrs nd"
  using assms
proof (induction body nd cnt i j sep lst rule: readListLoop.induct)
  case (1 body nd cnt i j sep lst)
  note bd = "1.prems"(1) and dt = "1.prems"(2) and i0 = "1.prems"(3)
    and w0 = "1.prems"(4) and jc = "1.prems"(5) and bound = "1.prems"(6)
  show ?case
  proof (cases "j < cnt")
    case False
    with jc have "j = cnt" by simp
    then show ?thesis using dt by simp
  next
    case True
    have split: "w * (cnt - j) = w + w * (cnt - (j + 1))"
      by (simp add: algebra_simps)
    have rest: "0 \<le> w * (cnt - (j + 1))"
      using True w0 by simp
    have fits: "i + w \<le> int (length dat)"
      using bound split rest by linarith
    obtain nd' tx where b: "body nd i j = Inr (nd', el i j, tx, i + w)"
      and d: "data nd' = dat" and a: "attrs nd' = attrs nd"
      using bd[OF dt i0 fits] by blast
    let ?nd = "nd'\<lparr>content := content nd' @ sep @ tx\<rparr>"
    have "\<exists>nd''. readListLoop body ?nd cnt (i + w) (j + 1) '','' (lst @ [el i j]) =
                 Inr (nd'', (i + w) + w * (cnt - (j + 1)),
                      (lst @ [el i j]) @ map (\<lambda>k. el ((i + w) + w * (k - (j + 1))) k) [j + 1..cnt - 1]) \<and>
               data nd'' = dat \<and> attrs nd'' = attrs ?nd"
    proof (rule "1.IH"[OF True b refl refl refl])
      show "\<And>nd i j. data nd = dat \<Longrightarrow> 0 \<le> i \<Longrightarrow> i + w \<le> int (length dat) \<Longrightarrow>
            \<exists>nd' txt. body nd i j = Inr (nd', el i j, txt, i + w) \<and>
                      data nd' = dat \<and> attrs nd' = attrs nd"
        by (rule bd)
      show "data ?nd = dat" using d by simp
      show "0 \<le> i + w" using i0 w0 by simp
      show "0 \<le> w" by (rule w0)
      show "j + 1 \<le> cnt" using True by simp
      show "i + w + w * (cnt - (j + 1)) \<le> int (length dat)" using bound split by simp
    qed
    then obtain nd'' where r: "readListLoop body ?nd cnt (i + w) (j + 1) '','' (lst @ [el i j]) =
                 Inr (nd'', (i + w) + w * (cnt - (j + 1)),
                      (lst @ [el i j]) @ map (\<lambda>k. el ((i + w) + w * (k - (j + 1))) k) [j + 1..cnt - 1])"
      and d'': "data nd'' = dat" and a'': "attrs nd'' = attrs ?nd"
      by blast
    have up: "[j..cnt - 1] = j # [j + 1..cnt - 1]"
      using True by (simp add: upto_rec1)
    have idx: "(i + w) + w * (k - (j + 1)) = i + w * (k - j)" for k
      by (simp add: algebra_simps)
    have "readListLoop body nd cnt i j sep lst =
            readListLoop body ?nd cnt (i + w) (j + 1) '','' (lst @ [el i j])"
      using True b by (subst readListLoop.simps) simp
    then show ?thesis
      using r d'' a'' a split by (simp add: up idx)
  qed
qed

lemma readList_ok:
  assumes body: "\<And>nd i j. data nd = dat \<Longrightarrow> 0 \<le> i \<Longrightarrow> i + w \<le> int (length dat) \<Longrightarrow>
            \<exists>nd' txt. body nd i j = Inr (nd', el i j, txt, i + w) \<and>
                      data nd' = dat \<and> attrs nd' = attrs nd"
    and "data nd = dat" and "0 \<le> off" and "0 \<le> w" and "off + 4 \<le> int (length dat)"
    and "off + 4 + w * u32At dat off \<le> int (length dat)"
  shows "\<exists>nd'. readList body nd off nm = Inr (nd', off + 4 + w * u32At dat off) \<and>
               get_attr nd' nm =
                 Some (VList (map (\<lambda>k. el (off + 4 + w * k) k) [0..u32At dat off - 1]))"
proof -
  let ?cnt = "u32At dat off"
  let ?nd = "nd\<lparr>content := content nd @ '' '' @ nm @ ''=[''\<rparr>"
  have cnt: "0 \<le> ?cnt" by (simp add: u32At_def le_val_nonneg)
  have rd: "getUInt32 (data nd) off = Inr (?cnt, off + 4)"
    using assms by (simp add: getUInt32_ok)
  have "\<exists>nd'. readListLoop body ?nd ?cnt (off + 4) 0 [] [] =
                 Inr (nd', (off + 4) + w * (?cnt - 0),
                      [] @ map (\<lambda>k. el ((off + 4) + w * (k - 0)) k) [0..?cnt - 1]) \<and>
               data nd' = dat \<and> attrs nd' = attrs ?nd"
    using assms cnt by (intro readListLoop_ok[where dat = dat]) simp_all
  then obtain nd' where "readListLoop body ?nd ?cnt (off + 4) 0 [] [] =
                 Inr (nd', off + 4 + w * ?cnt, map (\<lambda>k. el (off + 4 + w * k) k) [0..?cnt - 1])"
    by auto
  then show ?thesis
    using rd by (simp add: readList_def set_attr_def get_attr_def update_conv')
qed


lemma ReadNodeRef_frame:
  assumes "0 \<le> off" and "off + 4 \<le> int (length (data nd))"
  shows "\<exists>nd'. ReadNodeRef c nd off num t = Inr (nd', refAt c (data nd) off num t, off + 4) \<and>
               data nd' = data nd \<and> attrs nd' = attrs nd"
  using assms by (simp add: ReadNodeRef_ok split: option.splits)

lemma readList_stores:
  assumes "\<And>nd i j. data nd = dat \<Longrightarrow> 0 \<le> i \<Longrightarrow> i + w \<le> int (length dat) \<Longrightarrow>
            \<exists>nd' txt. body nd i j = Inr (nd', el i j, txt, i + w) \<and>
                      data nd' = dat \<and> attrs nd' = attrs nd"
    and "data nd = dat" and "0 \<le> off" and "0 \<le> w" and "off + 4 \<le> int (length dat)"
    and "off + 4 + w * u32At dat off \<le> int (length dat)"
  shows "storesList (readList body nd off nm) nm
           (map (\<lambda>k. el (off + 4 + w * k) k) [0..u32At dat off - 1])
           (off + 4 + w * u32At dat off)"
  unfolding storesList_def using assms by (rule readList_ok)

lemma ReadRefList_stores:
  assumes "0 \<le> off" and "off + 4 \<le> int (length (data nd))"
    and "off + 4 + 4 * u32At (data nd) off \<le> int (length (data nd))"
  shows "storesList (ReadRefList c nd off nm) nm
           (map (\<lambda>k. refVal (refAt c (data nd) (off + 4 + 4 * k) k TYPE_CROSS))
              [0..u32At (data nd) off - 1])
           (off + 4 + 4 * u32At (data nd) off)"
  unfolding ReadRefList_def
proof (rule readList_stores[where dat = "data nd"
      and el = "\<lambda>i j. refVal (refAt c (data nd) i j TYPE_CROSS)"])
  fix n :: node and i j :: int
  assume "data n = data nd" "0 \<le> i" "i + 4 \<le> int (length (data nd))"
  then show "\<exists>nd' txt. bindE (ReadNodeRef c n i j TYPE_CROSS)
        (\<lambda>(nd, ref, i). Inr (nd, refVal ref, ''('' @ strRef c ref @ '')'', i)) =
       Inr (nd', refVal (refAt c (data nd) i j TYPE_CROSS), txt, i + 4) \<and>
       data nd' = data nd \<and> attrs nd' = attrs n"
    using ReadNodeRef_frame[of i n c j TYPE_CROSS] by auto
qed (use assms in simp_all)

lemma ReadRefRefList_stores:
  assumes "0 \<le> off" and "off + 4 \<le> int (length (data nd))"
    and "off + 4 + 8 * u32At (data nd) off \<le> int (length (data nd))"
  shows "storesList (ReadRefRefList c nd off nm) nm
           (map (\<lambda>k. VList [refVal (refAt c (data nd) (off + 4 + 8 * k) k TYPE_CHILD),
                             refVal (refAt c (data nd) (off + 4 + 8 * k + 4) k TYPE_CHILD)])
              [0..u32At (data nd) off - 1])
           (off + 4 + 8 * u32At (data nd) off)"
  unfolding ReadRefRefList_def
proof (rule readList_stores[where dat = "data nd"
      and el = "\<lambda>i j. VList [refVal (refAt c (data nd) i j TYPE_CHILD),
                             refVal (refAt c (data nd) (i + 4) j TYPE_CHILD)]"])
  fix n :: node and i j :: int
  assume h: "data n = data nd" "0 \<le> i" "i + 8 \<le> int (length (data nd))"
  obtain n1 where r1: "ReadNodeRef c n i j TYPE_CHILD = Inr (n1, refAt c (data nd) i j TYPE_CHILD, i + 4)"
    and f1: "data n1 = data nd" "attrs n1 = attrs n"
    using ReadNodeRef_frame[of i n c j TYPE_CHILD] h by auto
  obtain n2 where r2: "ReadNodeRef c n1 (i + 4) j TYPE_CHILD =
        Inr (n2, refAt c (data nd) (i + 4) j TYPE_CHILD, i + 8)"
    and f2: "data n2 = data nd" "attrs n2 = attrs n"
    using ReadNodeRef_frame[of "i + 4" n1 c j TYPE_CHILD] h f1 by auto
  show "\<exists>nd' txt. bindE (ReadNodeRef c n i j TYPE_CHILD)
        (\<lambda>(nd, ref1, i). bindE (ReadNodeRef c nd i j TYPE_CHILD)
           (\<lambda>(nd, ref2, i). Inr (nd, VList [refVal ref1, refVal ref2],
              ''('' @ strRef c ref1 @ '','' @ strRef c ref2 @ '')'', i))) =
       Inr (nd', VList [refVal (refAt c (data nd) i j TYPE_CHILD),
                        refVal (refAt c (data nd) (i + 4) j TYPE_CHILD)], txt, i + 8) \<and>
       data nd' = data nd \<and> attrs nd' = attrs n"
    using r1 r2 f2 by simp
qed (use assms in simp_all)

lemma ReadRefXRefList_stores:
  assumes "0 \<le> off" and "off + 4 \<le> int (length (data nd))"
    and "off + 4 + 8 * u32At (data nd) off \<le> int (length (data nd))"
  shows "storesList (ReadRefXRefList c nd off nm) nm
           (map (\<lambda>k. VList [refVal (refAt c (data nd) (off + 4 + 8 * k) k TYPE_CHILD),
                             refVal (refAt c (data nd) (off + 4 + 8 * k + 4) k TYPE_CROSS)])
              [0..u32At (data nd) off - 1])
           (off + 4 + 8 * u32At (data nd) off)"
  unfolding ReadRefXRefList_def
proof (rule readList_stores[where dat = "data nd"
      and el = "\<lambda>i j. VList [refVal (refAt c (data nd) i j TYPE_CHILD),
                             refVal (refAt c (data nd) (i + 4) j TYPE_CROSS)]"])
  fix n :: node and i j :: int
  assume h: "data n = data nd" "0 \<le> i" "i + 8 \<le> int (length (data nd))"
  obtain n1 where r1: "ReadNodeRef c n i j TYPE_CHILD = Inr (n1, refAt c (data nd) i j TYPE_CHILD, i + 4)"
    and f1: "data n1 = data nd" "attrs n1 = attrs n"
    using ReadNodeRef_frame[of i n c j TYPE_CHILD] h by auto
  obtain n2 where r2: "ReadNodeRef c n1 (i + 4) j TYPE_CROSS =
        Inr (n2, refAt c (data nd) (i + 4) j TYPE_CROSS, i + 8)"
    and f2: "data n2 = data nd" "attrs n2 = attrs n"
    using ReadNodeRef_frame[of "i + 4" n1 c j TYPE_CROSS] h f1 by auto
  show "\<exists>nd' txt. bindE (ReadNodeRef c n i j TYPE_CHILD)
        (\<lambda>(nd, ref1, i). bindE (ReadNodeRef c nd i j TYPE_CROSS)
           (\<lambda>(nd, ref2, i). Inr (nd, VList [refVal ref1, refVal ref2],
              ''('' @ strRef c ref1 @ '','' @ strRef c ref2 @ '')'', i))) =
       Inr (nd', VList [refVal (refAt c (data nd) i j TYPE_CHILD),
                        refVal (refAt c (data nd) (i + 4) j TYPE_CROSS)], txt, i + 8) \<and>
       data nd' = data nd \<and> attrs nd' = attrs n"
    using r1 r2 f2 by simp
qed (use assms in simp_all)

lemma ReadRefU32List_stores:
  assumes "0 \<le> off" and "off + 4 \<le> int (length (data nd))"
    and "off + 4 + 8 * u32At (data nd) off \<le> int (length (data nd))"
  shows "storesList (ReadRefU32List c nd off nm) nm
           (map (\<lambda>k. VList [refVal (refAt c (data nd) (off + 4 + 8 * k) k TYPE_CROSS),
                             VInt (u32At (data nd) (off + 4 + 8 * k + 4))])
              [0..u32At (data nd) off - 1])
           (off + 4 + 8 * u32At (data nd) off)"
  unfolding ReadRefU32List_def
proof (rule readList_stores[where dat = "data nd"
      and el = "\<lambda>i j. VList [refVal (refAt c (data nd) i j TYPE_CROSS),
                             VInt (u32At (data nd) (i + 4))]"])
  fix n :: node and i j :: int
  assume h: "data n = data nd" "0 \<le> i" "i + 8 \<le> int (length (data nd))"
  obtain n1 where r1: "ReadNodeRef c n i j TYPE_CROSS = Inr (n1, refAt c (data nd) i j TYPE_CROSS, i + 4)"
    and f1: "data n1 = data nd" "attrs n1 = attrs n"
    using ReadNodeRef_frame[of i n c j TYPE_CROSS] h by auto
  have r2: "getUInt32 (data n1) (i + 4) = Inr (u32At (data nd) (i + 4), i + 8)"
    using getUInt32_ok[of "i + 4" "data nd"] h f1 by simp
  show "\<exists>nd' txt. bindE (ReadNodeRef c n i j TYPE_CROSS)
        (\<lambda>(nd, ref, i). bindE (getUInt32 (data nd) i)
           (\<lambda>(u32, i). Inr (nd, VList [refVal ref, VInt u32],
              ''('' @ strRef c ref @ '','' @ fmtX 4 u32 @ '')'', i))) =
       Inr (nd', VList [refVal (refAt c (data nd) i j TYPE_CROSS),
                        VInt (u32At (data nd) (i + 4))], txt, i + 8) \<and>
       data nd' = data nd \<and> attrs nd' = attrs n"
    using r1 r2 f1 by simp
qed (use assms in simp_all)

lemma ReadRefU32U8List_stores:
  assumes "0 \<le> off" and "off + 4 \<le> int (length (data nd))"
    and "off + 4 + 9 * u32At (data nd) off \<le> int (length (data nd))"
  shows "storesList (ReadRefU32U8List c nd off nm) nm
           (map (\<lambda>k. VList [refVal (refAt c (data nd) (off + 4 + 9 * k) k TYPE_CROSS),
                             VInt (u32At (data nd) (off + 4 + 9 * k + 4)),
                             VInt (u8At (data nd) (off + 4 + 9 * k + 8))])
              [0..u32At (data nd) off - 1])
           (off + 4 + 9 * u32At (data nd) off)"
  unfolding ReadRefU32U8List_def
proof (rule readList_stores[where dat = "data nd"
      and el = "\<lambda>i j. VList [refVal (refAt c (data nd) i j TYPE_CROSS),
                             VInt (u32At (data nd) (i + 4)), VInt (u8At (data nd) (i + 8))]"])
  fix n :: node and i j :: int
  assume h: "data n = data nd" "0 \<le> i" "i + 9 \<le> int (length (data nd))"
  obtain n1 where r1: "ReadNodeRef c n i j TYPE_CROSS = Inr (n1, refAt c (data nd) i j TYPE_CROSS, i + 4)"
    and f1: "data n1 = data nd" "attrs n1 = attrs n"
    using ReadNodeRef_frame[of i n c j TYPE_CROSS] h by auto
  have r2: "getUInt32 (data n1) (i + 4) = Inr (u32At (data nd) (i + 4), i + 8)"
    using getUInt32_ok[of "i + 4" "data nd"] h f1 by simp
  have r3: "getUInt8 (data n1) (i + 8) = Inr (u8At (data nd) (i + 8), i + 9)"
    using getUInt8_ok[of "i + 8" "data nd"] h f1 by simp
  show "\<exists>nd' txt. bindE (ReadNodeRef c n i j TYPE_CROSS)
        (\<lambda>(nd, ref, i). bindE (getUInt32 (data nd) i)
           (\<lambda>(v, i). bindE (getUInt8 (data nd) i)
             (\<lambda>(u8, i). Inr (nd, VList [refVal ref, VInt v, VInt u8],
                ''('' @ strRef c ref @ '','' @ fmtX 4 v @ '','' @ fmtX 2 u8 @ '')'', i)))) =
       Inr (nd', VList [refVal (refAt c (data nd) i j TYPE_CROSS),
                        VInt (u32At (data nd) (i + 4)), VInt (u8At (data nd) (i + 8))], txt, i + 9) \<and>
       data nd' = data nd \<and> attrs nd' = attrs n"
    using r1 r2 r3 f1 by simp
qed (use assms in simp_all)


lemma getUInt32s_ok:
  "0 \<le> off \<Longrightarrow> off + 4 * int n \<le> int (length dat) \<Longrightarrow>
     getUInt32s n dat off = Inr (map (\<lambda>k. u32At dat (off + 4 * int k)) [0..<n], off + 4 * int n)"
proof (induction n arbitrary: off)
  case 0
  then show ?case by simp
next
  case (Suc n)
  have r: "getUInt32 dat off = Inr (u32At dat off, off + 4)"
    using Suc.prems by (simp add: getUInt32_ok)
  have ih: "getUInt32s n dat (off + 4) =
      Inr (map (\<lambda>k. u32At dat (off + 4 + 4 * int k)) [0..<n], off + 4 + 4 * int n)"
    using Suc.prems by (intro Suc.IH) simp_all
  have up: "[0..<Suc n] = 0 # map Suc [0..<n]"
    by (simp only: map_Suc_upt upt_conv_Cons[of 0 "Suc n"] zero_less_Suc)
  have eq: "map (\<lambda>k. u32At dat (off + 4 * int k)) [0..<Suc n] =
      u32At dat off # map (\<lambda>k. u32At dat (off + 4 + 4 * int k)) [0..<n]"
    unfolding up by (simp add: comp_def algebra_simps)
  show ?case
    unfolding eq using r ih by (simp add: algebra_simps)
qed

lemma getUInt32A_ok:
  assumes "0 \<le> off" and "0 \<le> sz" and "off + 4 * sz \<le> int (length dat)"
  shows "getUInt32A dat off sz = Inr (u32sAt dat off sz, off + 4 * sz)"
  using getUInt32s_ok[of off "nat sz" dat] assms by (simp add: getUInt32A_def u32sAt_def)

lemma getFloat64_ok:
  "0 \<le> off \<Longrightarrow> off + 8 \<le> int (length dat) \<Longrightarrow> getFloat64 dat off = Inr (f64At dat off, off + 8)"
  by (simp add: getFloat64_def unpack_at_def f64At_def)


lemma ReadRefU32AList_stores:
  assumes "0 \<le> off" and "off + 4 \<le> int (length (data nd))" and "0 \<le> sz"
    and "off + 4 + (4 + 4 * sz) * u32At (data nd) off \<le> int (length (data nd))"
  shows "storesList (ReadRefU32AList c p nd off nm sz t) nm
           (map (\<lambda>k. VList [refVal (refAt c (data nd) (off + 4 + (4 + 4 * sz) * k) k t),
                             VList (map VInt (u32sAt (data nd) (off + 4 + (4 + 4 * sz) * k + 4) sz))])
              [0..u32At (data nd) off - 1])
           (off + 4 + (4 + 4 * sz) * u32At (data nd) off)"
  unfolding ReadRefU32AList_def
proof (rule readList_stores[where dat = "data nd"
      and el = "\<lambda>i j. VList [refVal (refAt c (data nd) i j t),
                             VList (map VInt (u32sAt (data nd) (i + 4) sz))]"])
  fix n :: node and i j :: int
  assume h: "data n = data nd" "0 \<le> i" "i + (4 + 4 * sz) \<le> int (length (data nd))"
  have fit: "i + 4 \<le> int (length (data nd))"
    using h assms(3) by linarith
  obtain n1 where r1: "ReadNodeRef c n i j t = Inr (n1, refAt c (data nd) i j t, i + 4)"
    and f1: "data n1 = data nd" "attrs n1 = attrs n"
    using ReadNodeRef_frame[of i n c j t] h fit by auto
  have r2: "getUInt32A (data n1) (i + 4) sz = Inr (u32sAt (data nd) (i + 4) sz, i + (4 + 4 * sz))"
    using getUInt32A_ok[of "i + 4" sz "data nd"] h f1 assms(3) by (simp add: algebra_simps)
  show "\<exists>nd' txt. bindE (ReadNodeRef c n i j t)
        (\<lambda>(nd, ref, i). bindE (getUInt32A (data nd) i sz)
           (\<lambda>(a, i). Inr (nd, VList [refVal ref, VList (map VInt a)],
              ''('' @ strRef c ref @ '','' @ IntArr2Str p a 4 @ '')'', i))) =
       Inr (nd', VList [refVal (refAt c (data nd) i j t),
                        VList (map VInt (u32sAt (data nd) (i + 4) sz))], txt, i + (4 + 4 * sz)) \<and>
       data nd' = data nd \<and> attrs nd' = attrs n"
    using r1 r2 f1 by simp
qed (use assms in simp_all)

lemma ReadRefU32ARefU32List_stores:
  assumes "0 \<le> off" and "off + 4 \<le> int (length (data nd))" and "0 \<le> sz"
    and "off + 4 + (12 + 4 * sz) * u32At (data nd) off \<le> int (length (data nd))"
  shows "storesList (ReadRefU32ARefU32List c p nd off nm sz) nm
           (map (\<lambda>k. VList [refVal (refAt c (data nd) (off + 4 + (12 + 4 * sz) * k) k TYPE_CROSS),
                             VList (map VInt (u32sAt (data nd) (off + 4 + (12 + 4 * sz) * k + 12) sz)),
                             refVal (refAt c (data nd) (off + 4 + (12 + 4 * sz) * k + 8) k TYPE_CROSS),
                             VInt (u32At (data nd) (off + 4 + (12 + 4 * sz) * k + 4))])
              [0..u32At (data nd) off - 1])
           (off + 4 + (12 + 4 * sz) * u32At (data nd) off)"
  unfolding ReadRefU32ARefU32List_def
proof (rule readList_stores[where dat = "data nd"
      and el = "\<lambda>i j. VList [refVal (refAt c (data nd) i j TYPE_CROSS),
                             VList (map VInt (u32sAt (data nd) (i + 12) sz)),
                             refVal (refAt c (data nd) (i + 8) j TYPE_CROSS),
                             VInt (u32At (data nd) (i + 4))]"])
  fix n :: node and i j :: int
  assume h: "data n = data nd" "0 \<le> i" "i + (12 + 4 * sz) \<le> int (length (data nd))"
  have fit: "i + 12 \<le> int (length (data nd))"
    using h assms(3) by linarith
  obtain n1 where r1: "ReadNodeRef c n i j TYPE_CROSS = Inr (n1, refAt c (data nd) i j TYPE_CROSS, i + 4)"
    and f1: "data n1 = data nd" "attrs n1 = attrs n"
    using ReadNodeRef_frame[of i n c j TYPE_CROSS] h fit by auto
  have r2: "getUInt32 (data n1) (i + 4) = Inr (u32At (data nd) (i + 4), i + 8)"
    using getUInt32_ok[of "i + 4" "data nd"] h f1 fit by simp
  obtain n2 where r3: "ReadNodeRef c n1 (i + 8) j TYPE_CROSS =
        Inr (n2, refAt c (data nd) (i + 8) j TYPE_CROSS, i + 12)"
    and f2: "data n2 = data nd" "attrs n2 = attrs n"
    using ReadNodeRef_frame[of "i + 8" n1 c j TYPE_CROSS] h f1 fit by auto
  have r4: "getUInt32A (data n2) (i + 12) sz = Inr (u32sAt (data nd) (i + 12) sz, i + (12 + 4 * sz))"
    using getUInt32A_ok[of "i + 12" sz "data nd"] h f2 assms(3) by (simp add: algebra_simps)
  show "\<exists>nd' txt. bindE (ReadNodeRef c n i j TYPE_CROSS)
        (\<lambda>(nd, ref1, i). bindE (getUInt32 (data nd) i)
           (\<lambda>(u32, i). bindE (ReadNodeRef c nd i j TYPE_CROSS)
             (\<lambda>(nd, ref2, i). bindE (getUInt32A (data nd) i sz)
               (\<lambda>(a, i). Inr (nd, VList [refVal ref1, VList (map VInt a), refVal ref2, VInt u32],
                  ''('' @ strRef c ref1 @ '','' @ fmtX 4 u32 @ '','' @ strRef c ref2 @ '','' @
                    IntArr2Str p a 4 @ '')'', i))))) =
       Inr (nd', VList [refVal (refAt c (data nd) i j TYPE_CROSS),
                        VList (map VInt (u32sAt (data nd) (i + 12) sz)),
                        refVal (refAt c (data nd) (i + 8) j TYPE_CROSS),
                        VInt (u32At (data nd) (i + 4))], txt, i + (12 + 4 * sz)) \<and>
       data nd' = data nd \<and> attrs nd' = attrs n"
    using r1 r2 r3 r4 f1 f2 by simp
qed (use assms in simp_all)

lemma ReadRefU32D64List_stores:
  assumes "0 \<le> off" and "off + 4 \<le> int (length (data nd))"
    and "off + 4 + 16 * u32At (data nd) off \<le> int (length (data nd))"
  shows "storesList (ReadRefU32D64List c p nd off nm) nm
           (map (\<lambda>k. VList [refVal (refAt c (data nd) (off + 4 + 16 * k) k TYPE_CROSS),
                             VInt (u32At (data nd) (off + 4 + 16 * k + 4)),
                             VFloat (f64At (data nd) (off + 4 + 16 * k + 8))])
              [0..u32At (data nd) off - 1])
           (off + 4 + 16 * u32At (data nd) off)"
  unfolding ReadRefU32D64List_def
proof (rule readList_stores[where dat = "data nd"
      and el = "\<lambda>i j. VList [refVal (refAt c (data nd) i j TYPE_CROSS),
                             VInt (u32At (data nd) (i + 4)), VFloat (f64At (data nd) (i + 8))]"])
  fix n :: node and i j :: int
  assume h: "data n = data nd" "0 \<le> i" "i + 16 \<le> int (length (data nd))"
  obtain n1 where r1: "ReadNodeRef c n i j TYPE_CROSS = Inr (n1, refAt c (data nd) i j TYPE_CROSS, i + 4)"
    and f1: "data n1 = data nd" "attrs n1 = attrs n"
    using ReadNodeRef_frame[of i n c j TYPE_CROSS] h by auto
  have r2: "getUInt32 (data n1) (i + 4) = Inr (u32At (data nd) (i + 4), i + 8)"
    using getUInt32_ok[of "i + 4" "data nd"] h f1 by simp
  have r3: "getFloat64 (data n1) (i + 8) = Inr (f64At (data nd) (i + 8), i + 16)"
    using getFloat64_ok[of "i + 8" "data nd"] h f1 by simp
  show "\<exists>nd' txt. bindE (ReadNodeRef c n i j TYPE_CROSS)
        (\<lambda>(nd, ref, i). bindE (getUInt32 (data nd) i)
           (\<lambda>(v, i). bindE (getFloat64 (data nd) i)
             (\<lambda>(f64, i). Inr (nd, VList [refVal ref, VInt v, VFloat f64],
                ''('' @ strRef c ref @ '','' @ fmtX 4 v @ '','' @ fmtG p f64 @ '')'', i)))) =
       Inr (nd', VList [refVal (refAt c (data nd) i j TYPE_CROSS),
                        VInt (u32At (data nd) (i + 4)), VFloat (f64At (data nd) (i + 8))], txt, i + 16) \<and>
       data nd' = data nd \<and> attrs nd' = attrs n"
    using r1 r2 r3 f1 by simp
qed (use assms in simp_all)


lemma readList_empty:
  assumes "0 \<le> off" and "off + 4 \<le> int (length (data nd))" and "u32At (data nd) off = 0"
  shows "storesList (readList body nd off nm) nm [] (off + 4)"
proof -
  have rd: "getUInt32 (data nd) off = Inr (0, off + 4)"
    using assms getUInt32_ok[of off "data nd"] by simp
  show ?thesis
    unfolding storesList_def
    using rd by (simp add: readList_def set_attr_def get_attr_def update_conv')
qed

text \<open>
  Claim C9.  Let the 32-bit count at \<open>off\<close> be readable.  Each of the eight
  list reads \<^verbatim>\<open>ReadRefList\<close>, \<^verbatim>\<open>ReadRefRefList\<close>, \<^verbatim>\<open>ReadRefXRefList\<close>,
  \<^verbatim>\<open>ReadRefU32List\<close>, \<^verbatim>\<open>ReadRefU32AList\<close>, \<^verbatim>\<open>ReadRefU32ARefU32List\<close>,
  \<^verbatim>\<open>ReadRefU32U8List\<close> and \<^verbatim>\<open>ReadRefU32D64List\<close> stores, for a count of 0,
  the empty list under the field name and returns the offset behind the count;
  for a count \<open>n\<close> whose elements lie inside the buffer it stores the \<open>n\<close>
  elements in the order of the buffer, element \<open>k\<close> being the one decoded at
  \<open>off + 4 + w * k\<close> for the element width \<open>w\<close>, and returns the offset behind
  the last element.  The width is 4 for a reference, 8 for two references or a
  reference and a word, 9 with a further byte, 16 with a further 64-bit float,
  and \<open>4 + 4 * sz\<close> or \<open>12 + 4 * sz\<close> for the two reads with an array of \<open>sz\<close>
  words.
\<close>

theorem ReadRefList_order:
  assumes "0 \<le> off" and "off + 4 \<le> int (length (data nd))"
  shows "(u32At (data nd) off = 0 \<longrightarrow>
            storesList (ReadRefList c nd off nm) nm [] (off + 4) \<and>
            storesList (ReadRefRefList c nd off nm) nm [] (off + 4) \<and>
            storesList (ReadRefXRefList c nd off nm) nm [] (off + 4) \<and>
            storesList (ReadRefU32List c nd off nm) nm [] (off + 4) \<and>
            storesList (ReadRefU32AList c p nd off nm sz t) nm [] (off + 4) \<and>
            storesList (ReadRefU32ARefU32List c p nd off nm sz) nm [] (off + 4) \<and>
            storesList (ReadRefU32U8List c nd off nm) nm [] (off + 4) \<and>
            storesList (ReadRefU32D64List c p nd off nm) nm [] (off + 4)) \<and>
         (off + 4 + 4 * u32At (data nd) off \<le> int (length (data nd)) \<longrightarrow>
            storesList (ReadRefList c nd off nm) nm
              (map (\<lambda>k. refVal (refAt c (data nd) (off + 4 + 4 * k) k TYPE_CROSS))
                 [0..u32At (data nd) off - 1])
              (off + 4 + 4 * u32At (data nd) off)) \<and>
         (off + 4 + 8 * u32At (data nd) off \<le> int (length (data nd)) \<longrightarrow>
            storesList (ReadRefRefList c nd off nm) nm
              (map (\<lambda>k. VList [refVal (refAt c (data nd) (off + 4 + 8 * k) k TYPE_CHILD),
                                refVal (refAt c (data nd) (off + 4 + 8 * k + 4) k TYPE_CHILD)])
                 [0..u32At (data nd) off - 1])
              (off + 4 + 8 * u32At (data nd) off) \<and>
            storesList (ReadRefXRefList c nd off nm) nm
              (map (\<lambda>k. VList [refVal (refAt c (data nd) (off + 4 + 8 * k) k TYPE_CHILD),
                                refVal (refAt c (data nd) (off + 4 + 8 * k + 4) k TYPE_CROSS)])
                 [0..u32At (data nd) off - 1])
              (off + 4 + 8 * u32At (data nd) off) \<and>
            storesList (ReadRefU32List c nd off nm) nm
              (map (\<lambda>k. VList [refVal (refAt c (data nd) (off + 4 + 8 * k) k TYPE_CROSS),
                                VInt (u32At (data nd) (off + 4 + 8 * k + 4))])
                 [0..u32At (data nd) off - 1])
              (off + 4 + 8 * u32At (data nd) off)) \<and>
         (off + 4 + 9 * u32At (data nd) off \<le> int (length (data nd)) \<longrightarrow>
            storesList (ReadRefU32U8List c nd off nm) nm
              (map (\<lambda>k. VList [refVal (refAt c (data nd) (off + 4 + 9 * k) k TYPE_CROSS),
                                VInt (u32At (data nd) (off + 4 + 9 * k + 4)),
                                VInt (u8At (data nd) (off + 4 + 9 * k + 8))])
                 [0..u32At (data nd) off - 1])
              (off + 4 + 9 * u32At (data nd) off)) \<and>
         (0 \<le> sz \<and> off + 4 + (4 + 4 * sz) * u32At (data nd) off \<le> int (length (data nd)) \<longrightarrow>
            storesList (ReadRefU32AList c p nd off nm sz t) nm
              (map (\<lambda>k. VList [refVal (refAt c (data nd) (off + 4 + (4 + 4 * sz) * k) k t),
                                VList (map VInt
                                  (u32sAt (data nd) (off + 4 + (4 + 4 * sz) * k + 4) sz))])
                 [0..u32At (data nd) off - 1])
              (off + 4 + (4 + 4 * sz) * u32At (data nd) off)) \<and>
         (0 \<le> sz \<and> off + 4 + (12 + 4 * sz) * u32At (data nd) off \<le> int (length (data nd)) \<longrightarrow>
            storesList (ReadRefU32ARefU32List c p nd off nm sz) nm
              (map (\<lambda>k. VList [refVal (refAt c (data nd) (off + 4 + (12 + 4 * sz) * k) k TYPE_CROSS),
                                VList (map VInt
                                  (u32sAt (data nd) (off + 4 + (12 + 4 * sz) * k + 12) sz)),
                                refVal (refAt c (data nd) (off + 4 + (12 + 4 * sz) * k + 8) k TYPE_CROSS),
                                VInt (u32At (data nd) (off + 4 + (12 + 4 * sz) * k + 4))])
                 [0..u32At (data nd) off - 1])
              (off + 4 + (12 + 4 * sz) * u32At (data nd) off)) \<and>
         (off + 4 + 16 * u32At (data nd) off \<le> int (length (data nd)) \<longrightarrow>
            storesList (ReadRefU32D64List c p nd off nm) nm
              (map (\<lambda>k. VList [refVal (refAt c (data nd) (off + 4 + 16 * k) k TYPE_CROSS),
                                VInt (u32At (data nd) (off + 4 + 16 * k + 4)),
                                VFloat (f64At (data nd) (off + 4 + 16 * k + 8))])
                 [0..u32At (data nd) off - 1])
              (off + 4 + 16 * u32At (data nd) off))"
proof (intro conjI impI)
  assume z: "u32At (data nd) off = 0"
  show "storesList (ReadRefList c nd off nm) nm [] (off + 4)"
    unfolding ReadRefList_def by (rule readList_empty[OF assms z])
  show "storesList (ReadRefRefList c nd off nm) nm [] (off + 4)"
    unfolding ReadRefRefList_def by (rule readList_empty[OF assms z])
  show "storesList (ReadRefXRefList c nd off nm) nm [] (off + 4)"
    unfolding ReadRefXRefList_def by (rule readList_empty[OF assms z])
  show "storesList (ReadRefU32List c nd off nm) nm [] (off + 4)"
    unfolding ReadRefU32List_def by (rule readList_empty[OF assms z])
  show "storesList (ReadRefU32AList c p nd off nm sz t) nm [] (off + 4)"
    unfolding ReadRefU32AList_def by (rule readList_empty[OF assms z])
  show "storesList (ReadRefU32ARefU32List c p nd off nm sz) nm [] (off + 4)"
    unfolding ReadRefU32ARefU32List_def by (rule readList_empty[OF assms z])
  show "storesList (ReadRefU32U8List c nd off nm) nm [] (off + 4)"
    unfolding ReadRefU32U8List_def by (rule readList_empty[OF assms z])
  show "storesList (ReadRefU32D64List c p nd off nm) nm [] (off + 4)"
    unfolding ReadRefU32D64List_def by (rule readList_empty[OF assms z])
next
  assume "off + 4 + 4 * u32At (data nd) off \<le> int (length (data nd))"
  then show "storesList (ReadRefList c nd off nm) nm
              (map (\<lambda>k. refVal (refAt c (data nd) (off + 4 + 4 * k) k TYPE_CROSS))
                 [0..u32At (data nd) off - 1])
              (off + 4 + 4 * u32At (data nd) off)"
    by (rule ReadRefList_stores[OF assms])
next
  assume b: "off + 4 + 8 * u32At (data nd) off \<le> int (length (data nd))"
  show "storesList (ReadRefRefList c nd off nm) nm
              (map (\<lambda>k. VList [refVal (refAt c (data nd) (off + 4 + 8 * k) k TYPE_CHILD),
                                refVal (refAt c (data nd) (off + 4 + 8 * k + 4) k TYPE_CHILD)])
                 [0..u32At (data nd) off - 1])
              (off + 4 + 8 * u32At (data nd) off)"
    by (rule ReadRefRefList_stores[OF assms b])
  show "storesList (ReadRefXRefList c nd off nm) nm
              (map (\<lambda>k. VList [refVal (refAt c (data nd) (off + 4 + 8 * k) k TYPE_CHILD),
                                refVal (refAt c (data nd) (off + 4 + 8 * k + 4) k TYPE_CROSS)])
                 [0..u32At (data nd) off - 1])
              (off + 4 + 8 * u32At (data nd) off)"
    by (rule ReadRefXRefList_stores[OF assms b])
  show "storesList (ReadRefU32List c nd off nm) nm
              (map (\<lambda>k. VList [refVal (refAt c (data nd) (off + 4 + 8 * k) k TYPE_CROSS),
                                VInt (u32At (data nd) (off + 4 + 8 * k + 4))])
                 [0..u32At (data nd) off - 1])
              (off + 4 + 8 * u32At (data nd) off)"
    by (rule ReadRefU32List_stores[OF assms b])
next
  assume "off + 4 + 9 * u32At (data nd) off \<le> int (length (data nd))"
  then show "storesList (ReadRefU32U8List c nd off nm) nm
              (map (\<lambda>k. VList [refVal (refAt c (data nd) (off + 4 + 9 * k) k TYPE_CROSS),
                                VInt (u32At (data nd) (off + 4 + 9 * k + 4)),
                                VInt (u8At (data nd) (off + 4 + 9 * k + 8))])
                 [0..u32At (data nd) off - 1])
              (off + 4 + 9 * u32At (data nd) off)"
    by (rule ReadRefU32U8List_stores[OF assms])
next
  assume "0 \<le> sz \<and> off + 4 + (4 + 4 * sz) * u32At (data nd) off \<le> int (length (data nd))"
  then have s: "0 \<le> sz"
    and b: "off + 4 + (4 + 4 * sz) * u32At (data nd) off \<le> int (length (data nd))"
    by simp_all
  show "storesList (ReadRefU32AList c p nd off nm sz t) nm
              (map (\<lambda>k. VList [refVal (refAt c (data nd) (off + 4 + (4 + 4 * sz) * k) k t),
                                VList (map VInt
                                  (u32sAt (data nd) (off + 4 + (4 + 4 * sz) * k + 4) sz))])
                 [0..u32At (data nd) off - 1])
              (off + 4 + (4 + 4 * sz) * u32At (data nd) off)"
    by (rule ReadRefU32AList_stores[OF assms s b])
next
  assume "0 \<le> sz \<and> off + 4 + (12 + 4 * sz) * u32At (data nd) off \<le> int (length (data nd))"
  then have s: "0 \<le> sz"
    and b: "off + 4 + (12 + 4 * sz) * u32At (data nd) off \<le> int (length (data nd))"
    by simp_all
  show "storesList (ReadRefU32ARefU32List c p nd off nm sz) nm
              (map (\<lambda>k. VList [refVal (refAt c (data nd) (off + 4 + (12 + 4 * sz) * k) k TYPE_CROSS),
                                VList (map VInt
                                  (u32sAt (data nd) (off + 4 + (12 + 4 * sz) * k + 12) sz)),
                                refVal (refAt c (data nd) (off + 4 + (12 + 4 * sz) * k + 8) k TYPE_CROSS),
                                VInt (u32At (data nd) (off + 4 + (12 + 4 * sz) * k + 4))])
                 [0..u32At (data nd) off - 1])
              (off + 4 + (12 + 4 * sz) * u32At (data nd) off)"
    by (rule ReadRefU32ARefU32List_stores[OF assms s b])
next
  assume "off + 4 + 16 * u32At (data nd) off \<le> int (length (data nd))"
  then show "storesList (ReadRefU32D64List c p nd off nm) nm
              (map (\<lambda>k. VList [refVal (refAt c (data nd) (off + 4 + 16 * k) k TYPE_CROSS),
                                VInt (u32At (data nd) (off + 4 + 16 * k + 4)),
                                VFloat (f64At (data nd) (off + 4 + 16 * k + 8))])
                 [0..u32At (data nd) off - 1])
              (off + 4 + 16 * u32At (data nd) off)"
    by (rule ReadRefU32D64List_stores[OF assms])
qed

theorem ReadRefList_order_witness:
  "storesList
     (ReadRefList \<lparr>ref_index = (\<lambda>n m. n), ref_str = (\<lambda>r. [])\<rparr>
        \<lparr>offset = 0, size = 12, typeID = Tag 0, typeName = [],
         data = [2,0,0,0, 5,0,0,0, 0,0,0,0], content = [],
         name = [], visible = False, dimensioningVisible = False, childIndexes = [], attrs = []\<rparr>
        0 ''lst'')
     ''lst'' [VRef \<lparr>index = 5, refType = 3, number = 0\<rparr>, VNone] 12 \<and>
   storesList
     (ReadRefU32AList \<lparr>ref_index = (\<lambda>n m. n), ref_str = (\<lambda>r. [])\<rparr>
        \<lparr>IntArr2Str = (\<lambda>a w. []), fmtG = (\<lambda>x. [])\<rparr>
        \<lparr>offset = 0, size = 16, typeID = Tag 0, typeName = [],
         data = [1,0,0,0, 5,0,0,0, 7,0,0,0, 8,0,0,0], content = [],
         name = [], visible = False, dimensioningVisible = False, childIndexes = [], attrs = []\<rparr>
        0 ''ls0'' 2 TYPE_CHILD)
     ''ls0'' [VList [VRef \<lparr>index = 5, refType = 2, number = 0\<rparr>, VList [VInt 7, VInt 8]]] 16 \<and>
   storesList
     (ReadRefU32D64List \<lparr>ref_index = (\<lambda>n m. n), ref_str = (\<lambda>r. [])\<rparr>
        \<lparr>IntArr2Str = (\<lambda>a w. []), fmtG = (\<lambda>x. [])\<rparr>
        \<lparr>offset = 0, size = 4, typeID = Tag 0, typeName = [],
         data = [0,0,0,0], content = [],
         name = [], visible = False, dimensioningVisible = False, childIndexes = [], attrs = []\<rparr>
        0 ''a3'')
     ''a3'' [] 4"
proof -
  let ?c = "\<lparr>ref_index = (\<lambda>n m. n), ref_str = (\<lambda>r. [])\<rparr>"
  let ?p = "\<lparr>IntArr2Str = (\<lambda>a w. []), fmtG = (\<lambda>x. [])\<rparr>"
  let ?d1 = "[2,0,0,0, 5,0,0,0, 0,0,0,0] :: byte list"
  let ?n1 = "\<lparr>offset = 0, size = 12, typeID = Tag 0, typeName = [],
         data = ?d1, content = [],
         name = [], visible = False, dimensioningVisible = False, childIndexes = [], attrs = []\<rparr>"
  let ?d2 = "[1,0,0,0, 5,0,0,0, 7,0,0,0, 8,0,0,0] :: byte list"
  let ?n2 = "\<lparr>offset = 0, size = 16, typeID = Tag 0, typeName = [],
         data = ?d2, content = [],
         name = [], visible = False, dimensioningVisible = False, childIndexes = [], attrs = []\<rparr>"
  let ?d3 = "[0,0,0,0] :: byte list"
  let ?n3 = "\<lparr>offset = 0, size = 4, typeID = Tag 0, typeName = [],
         data = ?d3, content = [],
         name = [], visible = False, dimensioningVisible = False, childIndexes = [], attrs = []\<rparr>"
  have h0: "(0::int) \<le> 0" by simp
  have h1: "0 + 4 \<le> int (length (data ?n1))" by simp
  have h2: "0 + 4 \<le> int (length (data ?n2))" by simp
  have h3: "0 + 4 \<le> int (length (data ?n3))" by simp
  have c1: "u32At (data ?n1) 0 = 2" by (simp add: u32At_def)
  have c2: "u32At (data ?n2) 0 = 1" by (simp add: u32At_def)
  have c3: "u32At (data ?n3) 0 = 0" by (simp add: u32At_def)
  have up: "[0..1] = [0, 1::int]" by (simp add: upto_rec1)
  have e0: "refAt ?c ?d1 4 0 TYPE_CROSS = Some \<lparr>index = 5, refType = 3, number = 0\<rparr>"
    by (simp add: refAt_def u16At_def TYPE_CROSS_def)
  have e1: "refAt ?c ?d1 8 1 TYPE_CROSS = None"
    by (simp add: refAt_def u16At_def TYPE_CROSS_def)
  have e2: "refAt ?c ?d2 4 0 TYPE_CHILD = Some \<lparr>index = 5, refType = 2, number = 0\<rparr>"
    by (simp add: refAt_def u16At_def TYPE_CHILD_def)
  have un: "[0..<nat 2] = [0, 1]"
    by (simp add: upt_rec)
  have a2: "u32sAt ?d2 8 2 = [7, 8]"
    unfolding u32sAt_def un by (simp add: u32At_def)
  have r1: "storesList (ReadRefList ?c ?n1 0 ''lst'') ''lst''
      [VRef \<lparr>index = 5, refType = 3, number = 0\<rparr>, VNone] 12"
    using ReadRefList_order[OF h0 h1, of ?c "''lst''"] c1 up e0 e1
    by (simp add: refVal_def)
  have r2: "storesList (ReadRefU32AList ?c ?p ?n2 0 ''ls0'' 2 TYPE_CHILD) ''ls0''
      [VList [VRef \<lparr>index = 5, refType = 2, number = 0\<rparr>, VList [VInt 7, VInt 8]]] 16"
    using ReadRefList_order[OF h0 h2, of ?c "''ls0''" ?p 2 TYPE_CHILD] c2 e2 a2
    by (simp add: refVal_def)
  have r3: "storesList (ReadRefU32D64List ?c ?p ?n3 0 ''a3'') ''a3'' [] 4"
    using ReadRefList_order[OF h0 h3, of ?c "''a3''" ?p] c3
    by simp
  show ?thesis
    using r1 r2 r3 by blast
qed

theorem ReadNodeRef_null_or_queued_witness:
  "ReadNodeRef \<lparr>ref_index = (\<lambda>n m. n), ref_str = (\<lambda>r. [])\<rparr>
        \<lparr>offset = 0, size = 8, typeID = Tag 0, typeName = [],
         data = [5,0,0,0, 0,0,0,0], content = [],
         name = [], visible = False, dimensioningVisible = False, childIndexes = [], attrs = []\<rparr>
        4 7 TYPE_CROSS =
     Inr (\<lparr>offset = 0, size = 8, typeID = Tag 0, typeName = [],
         data = [5,0,0,0, 0,0,0,0], content = [],
         name = [], visible = False, dimensioningVisible = False, childIndexes = [], attrs = []\<rparr>,
         None, 8) \<and>
   (\<exists>nd'. ReadNodeRef \<lparr>ref_index = (\<lambda>n m. n), ref_str = (\<lambda>r. [])\<rparr>
        \<lparr>offset = 0, size = 8, typeID = Tag 0, typeName = [],
         data = [5,0,0,0, 0,0,0,0], content = [],
         name = [], visible = False, dimensioningVisible = False, childIndexes = [], attrs = []\<rparr>
        0 7 TYPE_CROSS =
     Inr (nd', Some \<lparr>index = 5, refType = TYPE_CROSS, number = 7\<rparr>, 4) \<and>
     childIndexes nd' = [\<lparr>index = 5, refType = TYPE_CROSS, number = 7\<rparr>])"
proof -
  let ?dat = "[5,0,0,0, 0,0,0,0] :: byte list"
  let ?nd = "\<lparr>offset = 0, size = 8, typeID = Tag 0, typeName = [],
         data = ?dat, content = [],
         name = [], visible = False, dimensioningVisible = False, childIndexes = [], attrs = []\<rparr>"
  let ?c = "\<lparr>ref_index = (\<lambda>n m. n), ref_str = (\<lambda>r. [])\<rparr>"
  have a0: "getUInt16 ?dat 0 = Inr (5, 2)" "getUInt16 ?dat 2 = Inr (0, 4)"
    "getUInt16 ?dat 4 = Inr (0, 6)" "getUInt16 ?dat 6 = Inr (0, 8)"
    by (simp_all add: getUInt16_def unpack_at_def)
  have h0: "(0::int) \<le> 0" "0 + 4 \<le> int (length (data ?nd))" by simp_all
  have h4: "(0::int) \<le> 4" "4 + 4 \<le> int (length (data ?nd))" by simp_all
  show ?thesis
    using ReadNodeRef_null_or_queued[OF h0, of ?c 7 TYPE_CROSS]
      ReadNodeRef_null_or_queued[OF h4, of ?c 7 TYPE_CROSS] a0
    by simp
qed

section \<open>The content header and the constraint header\<close>

lemma and_pow2_pos_iff: "(x AND 2 ^ n) > 0 \<longleftrightarrow> bit x n" for x :: int
proof -
  have "0 \<le> x AND 2 ^ n" by simp
  moreover have "x AND 2 ^ n = 0 \<longleftrightarrow> \<not> bit x n"
    by (rule and_exp_eq_0_iff_not_bit)
  ultimately show ?thesis by linarith
qed

lemma flag_visible: "(flags AND 0x00000400) > 0 \<longleftrightarrow> bit flags 10" for flags :: int
  using and_pow2_pos_iff[of flags 10] by simp

lemma flag_dimVisible: "(flags AND 0x00800000) > 0 \<longleftrightarrow> bit flags 23" for flags :: int
  using and_pow2_pos_iff[of flags 23] by simp

lemma get_int_set_other: "k \<noteq> k' \<Longrightarrow> get_int (set_attr nd k' v) k = get_int nd k"
  by (simp add: get_int_def get_attr_def set_attr_def update_conv')


lemma ReadContentHeader_Inr:
  "ReadContentHeader e nd = Inr (nd', i') \<longleftrightarrow>
     (\<exists>n1 i1 n2 i2 n3 i3 n4 i4 n5 flags.
        Read_Header0 e nd = Inr (n1, i1) \<and>
        ReadChildRef e n1 i1 ''label'' = Inr (n2, i2) \<and>
        ReadUInt32 e n2 i2 ''flags'' = Inr (n3, i3) \<and>
        ReadParentRef e n3 (skipBlockSize e i3) = Inr (n4, i4) \<and>
        ReadUInt32 e n4 i4 ''index'' = Inr (n5, i') \<and>
        get_int n5 ''flags'' = Inr flags \<and>
        nd' = set_attr (n5\<lparr>visible := bit flags 10, dimensioningVisible := bit flags 23\<rparr>)
                ''ContentHeader'' (VBool True))"
  by (auto simp: ReadContentHeader_def bindE_eq_Inr Let_def flag_visible flag_dimVisible)

text \<open>
  Claim C7.  \<^verbatim>\<open>ReadContentHeader\<close> returns exactly when its five reads succeed
  in this order: the header of the record, the child reference \<open>label\<close>, the
  word \<open>flags\<close>, behind the skipped block size the parent reference, and the
  field \<open>index\<close>, whose end is the offset returned, and the node \<open>n5\<close> left by
  the last read holds an integer \<open>flags\<close> under the key \<open>flags\<close>.  The node
  returned is then \<open>n5\<close> with nothing changed but three things: it is visible
  exactly when bit \<open>0x400\<close> (bit 10) of \<open>flags\<close> is set, its dimensions are
  visible exactly when bit \<open>0x800000\<close> (bit 23) is set, and the attribute
  \<open>ContentHeader\<close> is true.
\<close>

theorem ReadContentHeader_flags:
  "ReadContentHeader e nd = Inr (nd', i') \<longleftrightarrow>
     (\<exists>n1 i1 n2 i2 n3 i3 n4 i4 n5 flags.
        Read_Header0 e nd = Inr (n1, i1) \<and>
        ReadChildRef e n1 i1 ''label'' = Inr (n2, i2) \<and>
        ReadUInt32 e n2 i2 ''flags'' = Inr (n3, i3) \<and>
        ReadParentRef e n3 (skipBlockSize e i3) = Inr (n4, i4) \<and>
        ReadUInt32 e n4 i4 ''index'' = Inr (n5, i') \<and>
        get_int n5 ''flags'' = Inr flags \<and>
        nd' = set_attr (n5\<lparr>visible := (flags AND 0x400 \<noteq> 0),
                           dimensioningVisible := (flags AND 0x800000 \<noteq> 0)\<rparr>)
                ''ContentHeader'' (VBool True) \<and>
        get_int nd' ''flags'' = Inr flags \<and>
        visible nd' = (flags AND 0x400 \<noteq> 0) \<and>
        visible nd' = bit flags 10 \<and>
        dimensioningVisible nd' = (flags AND 0x800000 \<noteq> 0) \<and>
        dimensioningVisible nd' = bit flags 23)"
  (is "?L \<longleftrightarrow> ?R")
proof -
  have b10: "bit flags 10 \<longleftrightarrow> flags AND 0x400 \<noteq> 0" for flags :: int
    using and_exp_eq_0_iff_not_bit[of flags 10] by simp
  have b23: "bit flags 23 \<longleftrightarrow> flags AND 0x800000 \<noteq> 0" for flags :: int
    using and_exp_eq_0_iff_not_bit[of flags 23] by simp
  show ?thesis
  proof
    assume ?L
    then obtain n1 i1 n2 i2 n3 i3 n4 i4 n5 flags where
      c: "Read_Header0 e nd = Inr (n1, i1)"
         "ReadChildRef e n1 i1 ''label'' = Inr (n2, i2)"
         "ReadUInt32 e n2 i2 ''flags'' = Inr (n3, i3)"
         "ReadParentRef e n3 (skipBlockSize e i3) = Inr (n4, i4)"
         "ReadUInt32 e n4 i4 ''index'' = Inr (n5, i')"
      and f: "get_int n5 ''flags'' = Inr flags"
      and n: "nd' = set_attr (n5\<lparr>visible := bit flags 10, dimensioningVisible := bit flags 23\<rparr>)
                  ''ContentHeader'' (VBool True)"
      unfolding ReadContentHeader_Inr by blast
    have n': "nd' = set_attr (n5\<lparr>visible := (flags AND 0x400 \<noteq> 0),
                           dimensioningVisible := (flags AND 0x800000 \<noteq> 0)\<rparr>)
                ''ContentHeader'' (VBool True)"
      using n by (simp only: b10 b23)
    have g: "get_int nd' ''flags'' = Inr flags"
      using f by (simp add: n get_int_def get_attr_def set_attr_def update_conv')
    have v: "visible nd' = bit flags 10" "dimensioningVisible nd' = bit flags 23"
      by (simp_all add: n set_attr_def)
    have w: "visible nd' = (flags AND 0x400 \<noteq> 0)"
            "dimensioningVisible nd' = (flags AND 0x800000 \<noteq> 0)"
      using v b10 b23 by simp_all
    show ?R
      using c f n' g v w by blast
  next
    assume ?R
    then obtain n1 i1 n2 i2 n3 i3 n4 i4 n5 flags where
      c: "Read_Header0 e nd = Inr (n1, i1)"
         "ReadChildRef e n1 i1 ''label'' = Inr (n2, i2)"
         "ReadUInt32 e n2 i2 ''flags'' = Inr (n3, i3)"
         "ReadParentRef e n3 (skipBlockSize e i3) = Inr (n4, i4)"
         "ReadUInt32 e n4 i4 ''index'' = Inr (n5, i')"
      and f: "get_int n5 ''flags'' = Inr flags"
      and n: "nd' = set_attr (n5\<lparr>visible := (flags AND 0x400 \<noteq> 0),
                           dimensioningVisible := (flags AND 0x800000 \<noteq> 0)\<rparr>)
                ''ContentHeader'' (VBool True)"
      by blast
    have "nd' = set_attr (n5\<lparr>visible := bit flags 10, dimensioningVisible := bit flags 23\<rparr>)
                  ''ContentHeader'' (VBool True)"
      using n by (simp only: b10 b23)
    with c f show ?L
      unfolding ReadContentHeader_Inr by blast
  qed
qed

text \<open>
  Claim C8.  Let the fields of \<^verbatim>\<open>ReadConstraintHeader2D\<close> in front of the version
  gate be read, up to the cross reference \<open>refGroup\<close>.  For a file version above
  2012 the function continues with the two lists \<open>lst0\<close> and \<open>lst1\<close> read by
  \<^verbatim>\<open>ReadList6\<close> from the buffer and then the cross reference \<open>refParameter\<close>.
  For a file version up to 2012 it only notes the two empty lists in
  \<open>content\<close>, skips two block sizes and reads \<open>refParameter\<close>; there the result
  does not depend on what \<^verbatim>\<open>ReadList6\<close> does, and no attribute of the node is
  touched at the gate.
\<close>

theorem ReadConstraintHeader2D_version_gate:
  assumes "ReadContentHeader e (nd\<lparr>typeName := tn\<rparr>) = Inr (n1, i1)"
    and "ReadSInt32 e n1 (skipBlockSize e i1) ''s32_0'' = Inr (n2, i2)"
    and "ReadCrossRef e n2 (skipBlockSize e i2) ''refGroup'' = Inr (n3, i3)"
  shows "(fileVersion e > 2012 \<longrightarrow>
            ReadConstraintHeader2D e nd tn =
              bindE (ReadList6 e n3 i3 TYP_MAP_X_REF_FLOAT64 (Some ''lst0'')) (\<lambda>(n4, i4).
              bindE (ReadList6 e n4 i4 TYP_MAP_X_REF_KEY (Some ''lst1'')) (\<lambda>(n5, i5).
                ReadCrossRef e n5 i5 ''refParameter''))) \<and>
         (fileVersion e \<le> 2012 \<longrightarrow>
            ReadConstraintHeader2D e nd tn =
              ReadCrossRef e (n3\<lparr>content := content n3 @ '' lst0={} lst1={}''\<rparr>)
                (skipBlockSize e (skipBlockSize e i3)) ''refParameter'' \<and>
            attrs (n3\<lparr>content := content n3 @ '' lst0={} lst1={}''\<rparr>) = attrs n3 \<and>
            (\<forall>f. ReadConstraintHeader2D (e\<lparr>ReadList6 := f\<rparr>) nd tn =
                 ReadConstraintHeader2D e nd tn))"
proof (intro conjI impI allI)
  assume "fileVersion e > 2012"
  then show "ReadConstraintHeader2D e nd tn =
              bindE (ReadList6 e n3 i3 TYP_MAP_X_REF_FLOAT64 (Some ''lst0'')) (\<lambda>(n4, i4).
              bindE (ReadList6 e n4 i4 TYP_MAP_X_REF_KEY (Some ''lst1'')) (\<lambda>(n5, i5).
                ReadCrossRef e n5 i5 ''refParameter''))"
    using assms
    by (cases "ReadList6 e n3 i3 TYP_MAP_X_REF_FLOAT64 (Some ''lst0'')")
       (auto simp: ReadConstraintHeader2D_def Let_def)
next
  assume v: "fileVersion e \<le> 2012"
  show "ReadConstraintHeader2D e nd tn =
              ReadCrossRef e (n3\<lparr>content := content n3 @ '' lst0={} lst1={}''\<rparr>)
                (skipBlockSize e (skipBlockSize e i3)) ''refParameter''"
    using assms v by (simp add: ReadConstraintHeader2D_def Let_def)
  show "attrs (n3\<lparr>content := content n3 @ '' lst0={} lst1={}''\<rparr>) = attrs n3"
    by simp
  fix f
  have ch: "ReadContentHeader (e\<lparr>ReadList6 := f\<rparr>) x = ReadContentHeader e x" for x
    by (simp add: ReadContentHeader_def)
  show "ReadConstraintHeader2D (e\<lparr>ReadList6 := f\<rparr>) nd tn = ReadConstraintHeader2D e nd tn"
    using v by (simp add: ReadConstraintHeader2D_def ch Let_def)
qed

section \<open>Truncated sketch lines and translated parameter names\<close>

lemma getFloat64_Inr:
  "getFloat64 dat off = Inr (v, i) \<longleftrightarrow>
     0 \<le> off \<and> off + 8 \<le> int (length dat) \<and>
     v = le_val (take 8 (drop (nat off) dat)) \<and> i = off + 8"
  by (auto simp: getFloat64_def unpack_at_Inr)

lemma ReadFloat64_Inr:
  "ReadFloat64 nd off nm = Inr (nd', i) \<Longrightarrow>
     0 \<le> off \<and> off + 8 \<le> int (length (data nd)) \<and> i = off + 8 \<and>
     data nd' = data nd \<and> name nd' = name nd"
  by (auto simp: ReadFloat64_def bindE_eq_Inr getFloat64_Inr set_attr_def)

lemma ReadFloat64_Inl:
  "ReadFloat64 nd off nm = Inl err \<Longrightarrow> err = StructError off"
  by (auto simp: ReadFloat64_def getFloat64_def unpack_at_def split: if_splits)

lemma four_floats_truncated:
  assumes "int (length (data nd)) < i + 32"
  shows "\<exists>p. bindE (ReadFloat64 nd i ''x'') (\<lambda>(nd, i).
              bindE (ReadFloat64 nd i ''y'') (\<lambda>(nd, i).
              bindE (ReadFloat64 nd i ''dirX'') (\<lambda>(nd, i).
              ReadFloat64 nd i ''dirY''))) = Inl (StructError p)"
proof (cases "ReadFloat64 nd i ''x''")
  case (Inl err)
  then show ?thesis using ReadFloat64_Inl[OF Inl] by simp
next
  case (Inr r1)
  obtain n1 j1 where r1: "r1 = (n1, j1)" by (cases r1)
  note f1 = ReadFloat64_Inr[OF Inr[unfolded r1]]
  show ?thesis
  proof (cases "ReadFloat64 n1 j1 ''y''")
    case (Inl err)
    then show ?thesis using ReadFloat64_Inl[OF Inl] Inr r1 by simp
  next
    case r2': (Inr r2)
    obtain n2 j2 where r2: "r2 = (n2, j2)" by (cases r2)
    note f2 = ReadFloat64_Inr[OF r2'[unfolded r2]]
    show ?thesis
    proof (cases "ReadFloat64 n2 j2 ''dirX''")
      case (Inl err)
      then show ?thesis using ReadFloat64_Inl[OF Inl] Inr r1 r2' r2 by simp
    next
      case r3': (Inr r3)
      obtain n3 j3 where r3: "r3 = (n3, j3)" by (cases r3)
      note f3 = ReadFloat64_Inr[OF r3'[unfolded r3]]
      show ?thesis
      proof (cases "ReadFloat64 n3 j3 ''dirY''")
        case (Inl err)
        then show ?thesis using ReadFloat64_Inl[OF Inl] Inr r1 r2' r2 r3' r3 by simp
      next
        case r4': (Inr r4)
        obtain n4 j4 where r4: "r4 = (n4, j4)" by (cases r4)
        note f4 = ReadFloat64_Inr[OF r4'[unfolded r4]]
        have False using assms f1 f2 f3 f4 by simp
        then show ?thesis ..
      qed
    qed
  qed
qed

lemma four_floats_one_short:
  assumes "0 \<le> i" and "int (length (data nd)) = i + 31"
  shows "bindE (ReadFloat64 nd i ''x'') (\<lambda>(nd, i).
         bindE (ReadFloat64 nd i ''y'') (\<lambda>(nd, i).
         bindE (ReadFloat64 nd i ''dirX'') (\<lambda>(nd, i).
         ReadFloat64 nd i ''dirY''))) = Inl (StructError (i + 24))"
  using assms
  by (simp add: ReadFloat64_def getFloat64_def unpack_at_def set_attr_def)


lemma Read_CE52DF3A_short:
  assumes "ReadSketch2DEntityHeader e nd ''Line2D'' = Inr (n1, i1)"
    and "ReadList2 e n1 (skipBlockSize e i1) TYP_NODE_X_REF ''points'' = Inr (n2, i2)"
    and "(if fileVersion e > 2012
          then ReadList2 e n2 (skipBlockSize e i2) TYP_NODE_X_REF ''lst1''
          else Inr (n2\<lparr>content := content n2 @ '' lst1={}''\<rparr>, skipBlockSize e i2)) = Inr (n3, i3)"
    and "int (length (data n3)) < i3 + 32"
  shows "\<exists>p. Read_CE52DF3A e nd = Inl (StructError p)"
  using assms(1-3) four_floats_truncated[OF assms(4)]
  by (simp add: Read_CE52DF3A_def Let_def split: if_splits)

text \<open>
  Claim C2.  Let the decoder of a sketch line have read the entity header, the
  list \<open>points\<close> and, for a file version above 2012, the list \<open>lst1\<close>, and let
  the data of the node end one byte short of the four 64-bit floats \<open>x\<close>, \<open>y\<close>,
  \<open>dirX\<close> and \<open>dirY\<close> that follow.  Then \<^verbatim>\<open>Read_CE52DF3A\<close> raises the error of the
  read of \<open>dirY\<close>; it does not return a node.
\<close>

theorem Read_CE52DF3A_truncated:
  assumes "ReadSketch2DEntityHeader e nd ''Line2D'' = Inr (n1, i1)"
    and "ReadList2 e n1 (skipBlockSize e i1) TYP_NODE_X_REF ''points'' = Inr (n2, i2)"
    and "(if fileVersion e > 2012
          then ReadList2 e n2 (skipBlockSize e i2) TYP_NODE_X_REF ''lst1''
          else Inr (n2\<lparr>content := content n2 @ '' lst1={}''\<rparr>, skipBlockSize e i2)) = Inr (n3, i3)"
    and "0 \<le> i3" and "int (length (data n3)) = i3 + 31"
  shows "Read_CE52DF3A e nd = Inl (StructError (i3 + 24))"
  using assms(1-3) four_floats_one_short[OF assms(4,5)]
  by (simp add: Read_CE52DF3A_def Let_def split: if_splits)

lemma keepsNameD: "keepsName f \<Longrightarrow> f nd i nm = Inr (nd', i') \<Longrightarrow> name nd' = name nd"
  unfolding keepsName_def by blast

text \<open>
  Claim C6.  Let the name field of a parameter record decode to \<open>PI\<close>.  Then
  \<^verbatim>\<open>Read_90874D26\<close> logs the warning of the rename, and when it returns, with
  the reads behind the name leaving the name alone, the name of the node is
  \<open>pi\<close>.  Likewise \<^verbatim>\<open>Read_0AA8AF46\<close> returns the node of a parameter constant
  whose name field decodes to \<open>PI\<close> with the name \<open>pi\<close>.
\<close>

theorem Parameter_PI_renamed:
  assumes "bindE (ReadContentHeader e (nd\<lparr>typeName := ''Parameter''\<rparr>)) (\<lambda>(n, i).
             ReadLen32Text16 e n (skipBlockSize e (skipBlockSize e (skipBlockSize e i))) None)
           = Inr (n2, i2)"
    and "name n2 = ''PI''"
    and "keepsName (ReadChildRef e)" and "keepsName (ReadSInt16 e)"
    and "keepsName (\<lambda>n i nm. ReadEnum16 e n i nm ''Tolerances'')"
    and "bindE (Read_Header0 e (cn\<lparr>typeName := ''ParameterConstant''\<rparr>)) (\<lambda>(n, i).
         bindE (ReadChildRef e n i ''refUnit'') (\<lambda>(n, i).
         bindE (ReadFloat64 n i ''value'') (\<lambda>(n, i).
         bindE (ReadSInt16 e n i ''s16_0'') (\<lambda>(n, i).
         bindE (ReadUInt32 e n i ''u32_0'') (\<lambda>(n, i).
           ReadLen32Text16 e n i None))))) = Inr (c6, j6)"
    and "name c6 = ''PI''"
  shows "fst (Read_90874D26 e nd) =
           [''    >WARNING - translated parameter name PI to '' @ py_repr e ''pi'' @ ''!''] \<and>
         (\<forall>nd' i'. snd (Read_90874D26 e nd) = Inr (nd', i') \<longrightarrow> name nd' = ''pi'') \<and>
         Read_0AA8AF46 e cn = Inr (c6\<lparr>name := ''pi''\<rparr>, j6)"
proof (intro conjI allI impI)
  have tr: "translate ''PI'' = ''pi''"
    by (simp add: translate_def translationTable_def)
  show "fst (Read_90874D26 e nd) =
           [''    >WARNING - translated parameter name PI to '' @ py_repr e ''pi'' @ ''!'']"
    using assms(1,2) by (simp add: Read_90874D26_def Let_def tr)
  show "Read_0AA8AF46 e cn = Inr (c6\<lparr>name := ''pi''\<rparr>, j6)"
  proof -
    from assms(6) obtain b1 k1 b2 k2 b3 k3 b4 k4 b5 k5 where
      c: "Read_Header0 e (cn\<lparr>typeName := ''ParameterConstant''\<rparr>) = Inr (b1, k1)"
         "ReadChildRef e b1 k1 ''refUnit'' = Inr (b2, k2)"
         "ReadFloat64 b2 k2 ''value'' = Inr (b3, k3)"
         "ReadSInt16 e b3 k3 ''s16_0'' = Inr (b4, k4)"
         "ReadUInt32 e b4 k4 ''u32_0'' = Inr (b5, k5)"
         "ReadLen32Text16 e b5 k5 None = Inr (c6, j6)"
      by (auto simp: bindE_eq_Inr)
    show ?thesis
      using c assms(7) by (simp add: Read_0AA8AF46_def Let_def)
  qed
  fix nd' i'
  assume r: "snd (Read_90874D26 e nd) = Inr (nd', i')"
  let ?n = "n2\<lparr>name := ''pi''\<rparr>"
  from r assms(1,2) obtain a1 j1 a2 j2 a3 j3 a4 j4 a5 j5 where
    s: "ReadChildRef e ?n (i2 + 4) ''refUnit'' = Inr (a1, j1)"
       "ReadChildRef e a1 j1 ''refValue'' = Inr (a2, j2)"
       "ReadFloat64 a2 j2 ''valueNominal'' = Inr (a3, j3)"
       "ReadFloat64 a3 j3 ''valueModel'' = Inr (a4, j4)"
       "ReadEnum16 e a4 j4 ''tolerance'' ''Tolerances'' = Inr (a5, j5)"
       "ReadSInt16 e a5 j5 ''u16_0'' = Inr (nd', i')"
    by (auto simp: Read_90874D26_def Let_def tr bindE_eq_Inr)
  have "name a1 = ''pi''" using keepsNameD[OF assms(3) s(1)] by simp
  then have "name a2 = ''pi''" using keepsNameD[OF assms(3) s(2)] by simp
  then have "name a3 = ''pi''" using ReadFloat64_Inr[OF s(3)] by simp
  then have "name a4 = ''pi''" using ReadFloat64_Inr[OF s(4)] by simp
  then have "name a5 = ''pi''" using keepsNameD[OF assms(5), of a4 j4 "''tolerance''"] s(5) by simp
  then show "name nd' = ''pi''" using keepsNameD[OF assms(4) s(6)] by simp
qed

section \<open>The decoders on concrete buffers\<close>

lemma demoEnv_simps:
  "fileVersion (demoEnv v t) = v"
  "skipBlockSize (demoEnv v t) i = i + 4"
  "Read_Header0 (demoEnv v t) nd = Inr (nd, 4)"
  "ReadParentRef (demoEnv v t) nd i = Inr (nd, i + 4)"
  "ReadChildRef (demoEnv v t) nd i nm = Inr (nd, i + 4)"
  "ReadCrossRef (demoEnv v t) nd i nm = Inr (nd, i + 4)"
  "ReadUInt32 (demoEnv v t) = demoRead 4"
  "ReadSInt32 (demoEnv v t) = demoRead 4"
  "ReadSInt16 (demoEnv v t) = demoRead 2"
  "ReadEnum16 (demoEnv v t) nd i nm en = demoRead 2 nd i nm"
  "ReadLen32Text16 (demoEnv v t) nd i None = Inr (nd\<lparr>name := t\<rparr>, i + 4)"
  "ReadList2 (demoEnv v t) = demoList"
  "ReadList6 (demoEnv v t) nd i lt (Some k) = demoList nd i lt k"
  "py_repr (demoEnv v t) s = CHR 0x27 # s @ [CHR 0x27]"
  by (simp_all add: demoEnv_def demoSkip_def)

lemma demoRead_ok:
  "0 \<le> i \<Longrightarrow> i + int w \<le> int (length (data nd)) \<Longrightarrow>
     demoRead w nd i nm = Inr (set_attr nd nm (VInt (le_val (take w (drop (nat i) (data nd))))), i + int w)"
  by (simp add: demoRead_def unpack_at_def)

lemma demoList_ok:
  "0 \<le> i \<Longrightarrow> i + 4 \<le> int (length (data nd)) \<Longrightarrow>
     demoList nd i lt nm = Inr (set_attr nd nm (VList []), i + 4)"
  by (simp add: demoList_def getUInt32_def unpack_at_def)

lemma data_set_attr [simp]: "data (set_attr nd k v) = data nd"
  by (simp add: set_attr_def)

lemma name_set_attr [simp]: "name (set_attr nd k v) = name nd"
  by (simp add: set_attr_def)

lemma demo_ContentHeader:
  assumes "24 \<le> length (data nd)"
  shows "\<exists>nd'. ReadContentHeader (demoEnv v t) nd = Inr (nd', 24) \<and>
               data nd' = data nd \<and> name nd' = name nd \<and>
               get_int nd' ''flags'' = Inr (le_val (take 4 (drop 8 (data nd))))"
  using assms
  by (simp add: ReadContentHeader_def demoEnv_simps demoRead_ok Let_def
        get_int_def get_attr_def set_attr_def update_conv')

theorem ReadContentHeader_flags_witness:
  "(\<exists>nd'. ReadContentHeader (demoEnv 2018 [])
            (demoNode [0,0,0,0, 0,0,0,0, 0,4,0,0, 0,0,0,0, 0,0,0,0, 7,0,0,0]) = Inr (nd', 24) \<and>
         get_int nd' ''flags'' = Inr 0x400 \<and>
         visible nd' \<and> \<not> dimensioningVisible nd') \<and>
   (\<exists>nd'. ReadContentHeader (demoEnv 2018 [])
            (demoNode [0,0,0,0, 0,0,0,0, 0,0,128,0, 0,0,0,0, 0,0,0,0, 7,0,0,0]) = Inr (nd', 24) \<and>
         get_int nd' ''flags'' = Inr 0x800000 \<and>
         \<not> visible nd' \<and> dimensioningVisible nd')"
proof -
  let ?a = "demoNode [0,0,0,0, 0,0,0,0, 0,4,0,0, 0,0,0,0, 0,0,0,0, 7,0,0,0]"
  let ?b = "demoNode [0,0,0,0, 0,0,0,0, 0,0,128,0, 0,0,0,0, 0,0,0,0, 7,0,0,0]"
  have bits: "bit (1024::int) 10" "\<not> bit (1024::int) 23"
             "\<not> bit (8388608::int) 10" "bit (8388608::int) 23"
    by (simp_all add: bit_iff_odd)
  have "24 \<le> length (data ?a)" by (simp add: demoNode_def)
  from demo_ContentHeader[OF this, of 2018 "[]"]
  obtain na where ra: "ReadContentHeader (demoEnv 2018 []) ?a = Inr (na, 24)"
    and fa: "get_int na ''flags'' = Inr 1024"
    by (auto simp: demoNode_def)
  from ReadContentHeader_flags[THEN iffD1, OF ra] fa
  have va: "visible na = bit (1024::int) 10" "dimensioningVisible na = bit (1024::int) 23"
    by auto
  have "24 \<le> length (data ?b)" by (simp add: demoNode_def)
  from demo_ContentHeader[OF this, of 2018 "[]"]
  obtain nb where rb: "ReadContentHeader (demoEnv 2018 []) ?b = Inr (nb, 24)"
    and fb: "get_int nb ''flags'' = Inr 8388608"
    by (auto simp: demoNode_def)
  from ReadContentHeader_flags[THEN iffD1, OF rb] fb
  have vb: "visible nb = bit (8388608::int) 10" "dimensioningVisible nb = bit (8388608::int) 23"
    by auto
  show ?thesis
    using ra fa va rb fb vb bits by auto
qed

lemma demo_ContentHeader_frame:
  assumes "24 \<le> length (data nd)"
  shows "\<exists>nd'. ReadContentHeader (demoEnv v t) nd = Inr (nd', 24) \<and>
               data nd' = data nd \<and> name nd' = name nd \<and> content nd' = content nd"
  using assms
  by (simp add: ReadContentHeader_def demoEnv_simps demoRead_ok Let_def
        get_int_def get_attr_def set_attr_def update_conv')

lemma data_demoNode [simp]: "data (demoNode dat) = dat"
  by (simp add: demoNode_def)

lemma content_set_attr [simp]: "content (set_attr nd k v) = content nd"
  by (simp add: set_attr_def)

lemma get_attr_set_attr [simp]: "get_attr (set_attr nd k v) k' = (if k' = k then Some v else get_attr nd k')"
  by (simp add: get_attr_def set_attr_def update_conv')

lemma demo_gate_prefix:
  fixes v :: int
  defines "e \<equiv> demoEnv v []"
  defines "nd \<equiv> demoNode (replicate 60 0)"
  shows "\<exists>n1 n2. ReadContentHeader e (nd\<lparr>typeName := ''Dim''\<rparr>) = Inr (n1, 24) \<and>
           ReadSInt32 e n1 (skipBlockSize e 24) ''s32_0'' = Inr (n2, 32) \<and>
           ReadCrossRef e n2 (skipBlockSize e 32) ''refGroup'' = Inr (n2, 40) \<and>
           data n2 = replicate 60 0 \<and> content n2 = []"
proof -
  have len: "24 \<le> length (data (nd\<lparr>typeName := ''Dim''\<rparr>))" by (simp add: nd_def)
  have cnt: "content (nd\<lparr>typeName := ''Dim''\<rparr>) = []" by (simp add: nd_def demoNode_def)
  obtain n1 where c1: "ReadContentHeader e (nd\<lparr>typeName := ''Dim''\<rparr>) = Inr (n1, 24)"
    and d1: "data n1 = replicate 60 0" and t1: "content n1 = []"
    using demo_ContentHeader_frame[OF len, of v "[]"] cnt by (auto simp: e_def nd_def)
  have c2: "ReadSInt32 e n1 (skipBlockSize e 24) ''s32_0'' =
      Inr (set_attr n1 ''s32_0'' (VInt (le_val (take 4 (drop (nat 28) (data n1))))), 32)"
    using d1 demoRead_ok[of 28 4 n1 "''s32_0''"] by (simp add: e_def demoEnv_simps)
  show ?thesis
    using c1 c2 d1 t1 by (simp add: e_def demoEnv_simps)
qed

theorem ReadConstraintHeader2D_version_gate_witness:
  "(\<exists>n. ReadConstraintHeader2D (demoEnv 2013 []) (demoNode (replicate 60 0)) ''Dim'' = Inr (n, 52) \<and>
        get_attr n ''lst0'' = Some (VList []) \<and> get_attr n ''lst1'' = Some (VList [])) \<and>
   (\<exists>n. ReadConstraintHeader2D (demoEnv 2012 []) (demoNode (replicate 60 0)) ''Dim'' = Inr (n, 52) \<and>
        content n = '' lst0={} lst1={}'')"
proof
  let ?nd = "demoNode (replicate 60 0)"
  obtain n1 n2 where c: "ReadContentHeader (demoEnv 2013 []) (?nd\<lparr>typeName := ''Dim''\<rparr>) = Inr (n1, 24)"
      "ReadSInt32 (demoEnv 2013 []) n1 (skipBlockSize (demoEnv 2013 []) 24) ''s32_0'' = Inr (n2, 32)"
      "ReadCrossRef (demoEnv 2013 []) n2 (skipBlockSize (demoEnv 2013 []) 32) ''refGroup'' = Inr (n2, 40)"
    and d: "data n2 = replicate 60 0"
    using demo_gate_prefix[of 2013] by blast
  have g: "ReadConstraintHeader2D (demoEnv 2013 []) ?nd ''Dim'' =
          bindE (ReadList6 (demoEnv 2013 []) n2 40 TYP_MAP_X_REF_FLOAT64 (Some ''lst0'')) (\<lambda>(n4, i4).
          bindE (ReadList6 (demoEnv 2013 []) n4 i4 TYP_MAP_X_REF_KEY (Some ''lst1'')) (\<lambda>(n5, i5).
            ReadCrossRef (demoEnv 2013 []) n5 i5 ''refParameter''))"
    using ReadConstraintHeader2D_version_gate[OF c] by (simp add: demoEnv_simps)
  show "\<exists>n. ReadConstraintHeader2D (demoEnv 2013 []) ?nd ''Dim'' = Inr (n, 52) \<and>
        get_attr n ''lst0'' = Some (VList []) \<and> get_attr n ''lst1'' = Some (VList [])"
    using d by (simp add: g demoEnv_simps demoList_ok)
next
  let ?nd = "demoNode (replicate 60 0)"
  obtain n1 n2 where c: "ReadContentHeader (demoEnv 2012 []) (?nd\<lparr>typeName := ''Dim''\<rparr>) = Inr (n1, 24)"
      "ReadSInt32 (demoEnv 2012 []) n1 (skipBlockSize (demoEnv 2012 []) 24) ''s32_0'' = Inr (n2, 32)"
      "ReadCrossRef (demoEnv 2012 []) n2 (skipBlockSize (demoEnv 2012 []) 32) ''refGroup'' = Inr (n2, 40)"
    and t: "content n2 = []"
    using demo_gate_prefix[of 2012] by blast
  have g: "ReadConstraintHeader2D (demoEnv 2012 []) ?nd ''Dim'' =
          ReadCrossRef (demoEnv 2012 []) (n2\<lparr>content := content n2 @ '' lst0={} lst1={}''\<rparr>)
            (skipBlockSize (demoEnv 2012 []) (skipBlockSize (demoEnv 2012 []) 40)) ''refParameter''"
    using ReadConstraintHeader2D_version_gate[OF c] by (simp add: demoEnv_simps)
  show "\<exists>n. ReadConstraintHeader2D (demoEnv 2012 []) ?nd ''Dim'' = Inr (n, 52) \<and>
        content n = '' lst0={} lst1={}''"
    using t by (simp add: g demoEnv_simps)
qed

lemma demo_Sketch2DEntityHeader:
  assumes "40 \<le> length (data nd)"
  shows "\<exists>n1. ReadSketch2DEntityHeader (demoEnv v t) nd tn = Inr (n1, 48) \<and> data n1 = data nd"
proof -
  have len: "24 \<le> length (data (nd\<lparr>typeName := tn\<rparr>))" using assms by simp
  obtain n0 where c: "ReadContentHeader (demoEnv v t) (nd\<lparr>typeName := tn\<rparr>) = Inr (n0, 24)"
    and d: "data n0 = data nd"
    using demo_ContentHeader_frame[OF len, of v t] by auto
  have "demoRead 4 n0 36 ''s32_0'' =
      Inr (set_attr n0 ''s32_0'' (VInt (le_val (take 4 (drop (nat 36) (data n0))))), 40)"
    using demoRead_ok[of 36 4 n0 "''s32_0''"] d assms by simp
  then show ?thesis
    using c d by (simp add: ReadSketch2DEntityHeader_def Let_def demoEnv_simps)
qed

theorem Read_CE52DF3A_truncated_witness:
  "Read_CE52DF3A (demoEnv 2012 []) (demoNode (replicate 91 0)) = Inl (StructError 84)"
proof -
  let ?e = "demoEnv 2012 []"
  let ?nd = "demoNode (replicate 91 0)"
  obtain n1 where h: "ReadSketch2DEntityHeader ?e ?nd ''Line2D'' = Inr (n1, 48)"
    and d1: "data n1 = replicate 91 0"
    using demo_Sketch2DEntityHeader[of ?nd 2012 "[]" "''Line2D''"] by auto
  let ?n2 = "set_attr n1 ''points'' (VList [])"
  have p: "ReadList2 ?e n1 (skipBlockSize ?e 48) TYP_NODE_X_REF ''points'' = Inr (?n2, 56)"
    using d1 by (simp add: demoEnv_simps demoList_ok)
  let ?n3 = "?n2\<lparr>content := content ?n2 @ '' lst1={}''\<rparr>"
  have g: "(if fileVersion ?e > 2012
          then ReadList2 ?e ?n2 (skipBlockSize ?e 56) TYP_NODE_X_REF ''lst1''
          else Inr (?n2\<lparr>content := content ?n2 @ '' lst1={}''\<rparr>, skipBlockSize ?e 56)) = Inr (?n3, 60)"
    by (simp add: demoEnv_simps)
  have i3: "(0::int) \<le> 60" by simp
  have len: "int (length (data ?n3)) = 60 + 31" using d1 by simp
  show ?thesis
    using Read_CE52DF3A_truncated[OF h p g i3 len] by simp
qed

lemma keepsName_demoSkip: "keepsName (demoSkip w)"
  by (simp add: keepsName_def demoSkip_def)

lemma keepsName_demoRead: "keepsName (demoRead w)"
  by (auto simp: keepsName_def demoRead_def bindE_eq_Inr)

lemma demoEnv_readers:
  "ReadChildRef (demoEnv v t) = demoSkip 4"
  "(\<lambda>n i nm. ReadEnum16 (demoEnv v t) n i nm en) = demoRead 2"
  by (simp_all add: demoEnv_def)

lemma ReadFloat64_ok:
  "0 \<le> i \<Longrightarrow> i + 8 \<le> int (length (data nd)) \<Longrightarrow>
     ReadFloat64 nd i nm = Inr (set_attr nd nm (VFloat (le_val (take 8 (drop (nat i) (data nd))))), i + 8)"
  by (simp add: ReadFloat64_def getFloat64_def unpack_at_def)

theorem Parameter_PI_renamed_witness:
  "fst (Read_90874D26 (demoEnv 2018 ''PI'') (demoNode (replicate 72 0))) =
     [''    >WARNING - translated parameter name PI to '' @ [CHR 0x27] @ ''pi'' @ [CHR 0x27] @ ''!''] \<and>
   (\<exists>nd'. snd (Read_90874D26 (demoEnv 2018 ''PI'') (demoNode (replicate 72 0))) = Inr (nd', 72) \<and>
          name nd' = ''pi'') \<and>
   (\<exists>c. Read_0AA8AF46 (demoEnv 2018 ''PI'') (demoNode (replicate 72 0)) = Inr (c, 26) \<and>
        name c = ''pi'')"
proof -
  let ?e = "demoEnv 2018 ''PI''"
  let ?nd = "demoNode (replicate 72 0)"
  have len: "24 \<le> length (data (?nd\<lparr>typeName := ''Parameter''\<rparr>))" by simp
  obtain n1 where c1: "ReadContentHeader ?e (?nd\<lparr>typeName := ''Parameter''\<rparr>) = Inr (n1, 24)"
    and d1: "data n1 = replicate 72 0"
    using demo_ContentHeader_frame[OF len, of 2018 "''PI''"] by auto
  let ?n2 = "n1\<lparr>name := ''PI''\<rparr>"
  have a1: "bindE (ReadContentHeader ?e (?nd\<lparr>typeName := ''Parameter''\<rparr>)) (\<lambda>(n, i).
             ReadLen32Text16 ?e n (skipBlockSize ?e (skipBlockSize ?e (skipBlockSize ?e i))) None)
           = Inr (?n2, 40)"
    by (simp add: c1 demoEnv_simps)
  have a2: "name ?n2 = ''PI''" by simp
  have k1: "keepsName (ReadChildRef ?e)" by (simp add: demoEnv_readers keepsName_demoSkip)
  have k2: "keepsName (ReadSInt16 ?e)" by (simp add: demoEnv_simps keepsName_demoRead)
  have k3: "keepsName (\<lambda>n i nm. ReadEnum16 ?e n i nm ''Tolerances'')"
    by (simp add: demoEnv_readers keepsName_demoRead)
  let ?c3 = "set_attr (?nd\<lparr>typeName := ''ParameterConstant''\<rparr>) ''value''
               (VFloat (le_val (take 8 (drop (nat 8) (replicate 72 0)))))"
  let ?c4 = "set_attr ?c3 ''s16_0'' (VInt (le_val (take 2 (drop (nat 16) (replicate 72 0)))))"
  let ?c5 = "set_attr ?c4 ''u32_0'' (VInt (le_val (take 4 (drop (nat 18) (replicate 72 0)))))"
  let ?c6 = "?c5\<lparr>name := ''PI''\<rparr>"
  have f3: "ReadFloat64 (?nd\<lparr>typeName := ''ParameterConstant''\<rparr>) 8 ''value'' = Inr (?c3, 16)"
    using ReadFloat64_ok[of 8 "?nd\<lparr>typeName := ''ParameterConstant''\<rparr>" "''value''"] by simp
  have f4: "demoRead 2 ?c3 16 ''s16_0'' = Inr (?c4, 18)"
    using demoRead_ok[of 16 2 ?c3 "''s16_0''"] by simp
  have f5: "demoRead 4 ?c4 18 ''u32_0'' = Inr (?c5, 22)"
    using demoRead_ok[of 18 4 ?c4 "''u32_0''"] by simp
  have a6: "bindE (Read_Header0 ?e (?nd\<lparr>typeName := ''ParameterConstant''\<rparr>)) (\<lambda>(n, i).
         bindE (ReadChildRef ?e n i ''refUnit'') (\<lambda>(n, i).
         bindE (ReadFloat64 n i ''value'') (\<lambda>(n, i).
         bindE (ReadSInt16 ?e n i ''s16_0'') (\<lambda>(n, i).
         bindE (ReadUInt32 ?e n i ''u32_0'') (\<lambda>(n, i).
           ReadLen32Text16 ?e n i None))))) = Inr (?c6, 26)"
    by (simp add: demoEnv_simps f3[simplified] f4[simplified] f5[simplified])
  have a7: "name ?c6 = ''PI''" by simp
  note main = Parameter_PI_renamed[OF a1 a2 k1 k2 k3 a6 a7]
  have ret: "\<exists>nd'. snd (Read_90874D26 ?e ?nd) = Inr (nd', 72)"
  proof -
    let ?m = "n1\<lparr>name := ''pi''\<rparr>"
    let ?m3 = "set_attr ?m ''valueNominal'' (VFloat (le_val (take 8 (drop (nat 52) (data ?m)))))"
    let ?m4 = "set_attr ?m3 ''valueModel'' (VFloat (le_val (take 8 (drop (nat 60) (data ?m3)))))"
    let ?m5 = "set_attr ?m4 ''tolerance'' (VInt (le_val (take 2 (drop (nat 68) (data ?m4)))))"
    have g3: "ReadFloat64 ?m 52 ''valueNominal'' = Inr (?m3, 60)"
      using ReadFloat64_ok[of 52 ?m "''valueNominal''"] d1 by simp
    have g4: "ReadFloat64 ?m3 60 ''valueModel'' = Inr (?m4, 68)"
      using ReadFloat64_ok[of 60 ?m3 "''valueModel''"] d1 by simp
    have g5: "demoRead 2 ?m4 68 ''tolerance'' = Inr (?m5, 70)"
      using demoRead_ok[of 68 2 ?m4 "''tolerance''"] d1 by simp
    have g6: "\<exists>m6. demoRead 2 ?m5 70 ''u16_0'' = Inr (m6, 72)"
      using demoRead_ok[of 70 2 ?m5 "''u16_0''"] d1 by simp
    have tr: "translate ''PI'' = ''pi''"
      by (simp add: translate_def translationTable_def)
    show ?thesis
      using g6[simplified] unfolding Read_90874D26_def
      by (simp add: a1[simplified] c1 demoEnv_simps Let_def tr g3[simplified] g4[simplified] g5[simplified])
  qed
  from ret obtain nd' where r: "snd (Read_90874D26 ?e ?nd) = Inr (nd', 72)" by blast
  then have "name nd' = ''pi''" using main by blast
  then show ?thesis
    using main r by (simp add: demoEnv_simps)
qed

section \<open>A file that is not a compound file\<close>

lemma ReadFile_not_ole:
  assumes "\<not> isOleFile w (inventorFile w)"
  shows "decoded (ReadFile w) = [] \<and>
         (infile w = None \<longrightarrow>
            ret (ReadFile w) = Inl (NameError ''infile'') \<and> logged (ReadFile w) = []) \<and>
         (\<forall>f. infile w = Some f \<longrightarrow>
            ret (ReadFile w) = Inr False \<and>
            logged (ReadFile w) =
              [LogError (''Error - '' @ [CHR 0x27] @ f @ [CHR 0x27]
                 @ '' is not a valid Autodesk Inventor file.'')])"
  using assms by (auto simp: ReadFile_def split: option.splits)

text \<open>
  Claim C5.  On a file \<open>part.txt\<close> that is not a compound file, with the name
  \<^verbatim>\<open>infile\<close> unbound as in the module, \<^verbatim>\<open>ReadFile\<close> decodes no stream, but it
  neither logs an error nor returns \<open>False\<close>: building the message raises the
  \<^verbatim>\<open>NameError\<close> of \<^verbatim>\<open>infile\<close>.
\<close>

theorem ReadFile_not_ole_NameError:
  "ReadFile \<lparr>inventorFile = ''part.txt'', isOleFile = (\<lambda>f. False), listdir = (\<lambda>f. []),
             ReadElement = (\<lambda>fname counter. Inr ()), timeStamp = [], infile = None\<rparr> =
   \<lparr>decoded = [], logged = [], comment = None, ret = Inl (NameError ''infile'')\<rparr>"
  by (simp add: ReadFile_def)

section \<open>Decoding a segment twice\<close>

lemma dcReader_eqI: "self_type a = self_type b \<Longrightarrow> a = b" for a b :: dcReader
  by (cases a, cases b) simp

lemma Read_452121B6_old:
  "fileVersion e \<le> 2011 \<Longrightarrow> Read_452121B6 e s nd = (s, snd (Read_452121B6 e s' nd))"
  by (simp add: Read_452121B6_def)

lemma bindE_Inl_const: "bindE m (\<lambda>x. Inl err) = Inl (case m of Inl e' \<Rightarrow> e' | Inr y \<Rightarrow> err)"
  by (cases m) simp_all

lemma isl_bindE: "(\<And>x. isl (f x)) \<Longrightarrow> isl (bindE m f)"
  by (cases m) simp_all

lemma isl_bindE_prod: "(\<And>a b. isl (f a b)) \<Longrightarrow> isl (bindE m (\<lambda>(a, b). f a b))"
  by (cases m) (simp_all add: split_beta)

text \<open>
  While the reader holds no document type, the two decoders that read it raise
  where they read it.  A run of such a reader that gets as far as a document has
  therefore decoded nothing in front of it that depends on the type, and a
  second run of the same reader ends like the first.
\<close>

lemma Read_452121B6_fresh:
  "fileVersion e > 2011 \<Longrightarrow> self_type s = None \<Longrightarrow> isl (snd (Read_452121B6 e s nd))"
  by (simp add: Read_452121B6_def get_type_def Let_def isl_bindE_prod)

lemma Read_6CA92D02_fresh:
  "self_type s = None \<Longrightarrow> isl (snd (Read_6CA92D02 e s nd))"
  by (simp add: Read_6CA92D02_def get_type_def Let_def isl_bindE_prod)


lemma decodeNode_fresh:
  assumes "self_type s = None" and "decodeNode e other s nd = (s1, r1)"
  shows "(s1 = s \<and> (isl r1 \<or> (\<forall>s'. decodeNode e other s' nd = (s', r1)))) \<or>
         (self_type s1 \<noteq> None \<and> (\<forall>s'. decodeNode e other s' nd = (s1, r1)))"
proof -
  consider (txn) "typeName nd = ''452121B6''"
    | (ca) "typeName nd \<noteq> ''452121B6''" "typeName nd = ''6CA92D02''"
    | (part) "typeName nd \<noteq> ''452121B6''" "typeName nd \<noteq> ''6CA92D02''"
        "typeName nd = ''90874D16''"
    | (asm) "typeName nd \<noteq> ''452121B6''" "typeName nd \<noteq> ''6CA92D02''"
        "typeName nd \<noteq> ''90874D16''" "typeName nd = ''90874D46''"
    | (other) "typeName nd \<noteq> ''452121B6''" "typeName nd \<noteq> ''6CA92D02''"
        "typeName nd \<noteq> ''90874D16''" "typeName nd \<noteq> ''90874D46''"
    by blast
  then show ?thesis
  proof cases
    case txn
    then have r: "Read_452121B6 e s nd = (s1, r1)"
      using assms(2) by (simp add: decodeNode_def)
    then have s1: "s1 = s" by (simp add: Read_452121B6_def)
    show ?thesis
    proof (cases "fileVersion e > 2011")
      case True
      then have "isl r1" using Read_452121B6_fresh[OF True assms(1), of nd] r by simp
      then show ?thesis using s1 by simp
    next
      case False
      then have "\<forall>s'. decodeNode e other s' nd = (s', r1)"
        using txn r by (simp add: decodeNode_def Read_452121B6_def)
      then show ?thesis using s1 by simp
    qed
  next
    case ca
    then have r: "Read_6CA92D02 e s nd = (s1, r1)"
      using assms(2) by (simp add: decodeNode_def)
    then have "s1 = s" by (simp add: Read_6CA92D02_def)
    moreover have "isl r1" using Read_6CA92D02_fresh[OF assms(1), of e nd] r by simp
    ultimately show ?thesis by simp
  next
    case part
    then have r: "Read_90874D16 e s nd = (s1, r1)"
      using assms(2) by (simp add: decodeNode_def)
    then have t: "self_type s1 = Some DOC_PART" by (auto simp: Read_90874D16_def)
    have "decodeNode e other s' nd = (s1, r1)" for s'
    proof -
      have "s'\<lparr>self_type := Some DOC_PART\<rparr> = s1" using t by (intro dcReader_eqI) simp
      then show ?thesis using part r by (auto simp: decodeNode_def Read_90874D16_def)
    qed
    then show ?thesis using t by simp
  next
    case asm
    then have r: "Read_90874D46 e s nd = (s1, r1)"
      using assms(2) by (simp add: decodeNode_def)
    then have t: "self_type s1 = Some DOC_ASSEMBLY" by (auto simp: Read_90874D46_def)
    have "decodeNode e other s' nd = (s1, r1)" for s'
    proof -
      have "s'\<lparr>self_type := Some DOC_ASSEMBLY\<rparr> = s1" using t by (intro dcReader_eqI) simp
      then show ?thesis using asm r by (auto simp: decodeNode_def Read_90874D46_def)
    qed
    then show ?thesis using t by simp
  next
    case other
    then show ?thesis using assms(2) by (auto simp: decodeNode_def)
  qed
qed

lemma decodeNodes_set:
  assumes "self_type s = None" and "decodeNodes e other s nds = (s1, r1)"
    and "self_type s1 \<noteq> None"
  shows "decodeNodes e other s' nds = (s1, r1)"
  using assms
proof (induction nds arbitrary: s s' s1 r1)
  case Nil
  then show ?case by simp
next
  case (Cons nd nds)
  obtain sa ra where n: "decodeNode e other s nd = (sa, ra)"
    by (cases "decodeNode e other s nd")
  note fresh = decodeNode_fresh[OF Cons.prems(1) n]
  show ?case
  proof (cases ra)
    case (Inl err)
    then have "s1 = sa" "r1 = Inl err" using Cons.prems(2) n by simp_all
    then have "\<forall>s'. decodeNode e other s' nd = (s1, ra)"
      using fresh Cons.prems(1,3) by auto
    then show ?thesis using Inl Cons.prems(2) n by simp
  next
    case (Inr p)
    obtain nd' i where p: "p = (nd', i)" by (cases p)
    obtain sb rb where rest: "decodeNodes e other sa nds = (sb, rb)"
      by (cases "decodeNodes e other sa nds")
    have res: "s1 = sb" "r1 = (case rb of Inl err \<Rightarrow> Inl err | Inr nds' \<Rightarrow> Inr (nd' # nds'))"
      using Cons.prems(2) n Inr p rest by (auto split: sum.splits)
    from fresh show ?thesis
    proof
      assume a: "sa = s \<and> (isl ra \<or> (\<forall>s'. decodeNode e other s' nd = (s', ra)))"
      then have step: "decodeNode e other s' nd = (s', ra)" using Inr by auto
      have "decodeNodes e other s' nds = (sb, rb)"
        using Cons.IH[of sa sb rb s'] a Cons.prems(1,3) rest res by simp
      then show ?thesis using step Inr p res by (auto split: sum.splits)
    next
      assume a: "self_type sa \<noteq> None \<and> (\<forall>s'. decodeNode e other s' nd = (sa, ra))"
      then have "decodeNode e other s' nd = (sa, ra)" by simp
      then show ?thesis using Cons.prems(2) n by simp
    qed
  qed
qed

lemma decodeNodes_twice:
  assumes "self_type s0 = None"
  shows "decodeNodes e other (fst (decodeNodes e other s0 nds)) nds = decodeNodes e other s0 nds"
proof -
  obtain s1 r1 where r: "decodeNodes e other s0 nds = (s1, r1)"
    by (cases "decodeNodes e other s0 nds")
  show ?thesis
  proof (cases "self_type s1")
    case None
    then have "s1 = s0" using assms by (intro dcReader_eqI) simp
    then show ?thesis using r by simp
  next
    case (Some t)
    then show ?thesis using decodeNodes_set[OF assms r, of s1] r by simp
  qed
qed














end
